theory Spec2Isabelle
  imports Main "HOL-Library.Sublist"
begin

section \<open>Python strings\<close>

text \<open>
  A Python \<open>str\<close> is a sequence of Unicode code points, and \<open>len\<close> counts code points.
  A string is therefore a list of natural numbers, one per code point; ASCII literals of the
  source are written through \<open>lit\<close>.
\<close>

type_synonym pystr = "nat list"

definition lit :: "string \<Rightarrow> pystr" where
  "lit s = map of_char s"

definition SPACE :: nat where "SPACE = 32"
definition DOT :: nat where "DOT = 46"
definition BAR :: nat where "BAR = 124"

text \<open>
  The characters that \<open>str.strip()\<close> (no argument) and \<open>str.split()\<close> (no argument) treat as
  whitespace: the code points for which \<open>str.isspace\<close> holds.
\<close>

definition py_isspace :: "nat \<Rightarrow> bool" where
  "py_isspace c \<longleftrightarrow>
     (9 \<le> c \<and> c \<le> 13) \<or> (28 \<le> c \<and> c \<le> 32) \<or> c = 133 \<or> c = 160 \<or> c = 5760 \<or>
     (8192 \<le> c \<and> c \<le> 8202) \<or> c = 8232 \<or> c = 8233 \<or> c = 8239 \<or> c = 8287 \<or> c = 12288"

definition py_strip :: "pystr \<Rightarrow> pystr" where
  "py_strip s = rev (dropWhile py_isspace (rev (dropWhile py_isspace s)))"

text \<open>
  \<open>s.replace(old, new)\<close> for a non-empty \<open>old\<close>: the occurrences are found scanning from the
  left and do not overlap.
\<close>

function py_replace :: "pystr \<Rightarrow> pystr \<Rightarrow> pystr \<Rightarrow> pystr" where
  "py_replace old new [] = []"
| "py_replace old new (c # cs) =
     (if old \<noteq> [] \<and> prefix old (c # cs)
      then new @ py_replace old new (drop (length old) (c # cs))
      else c # py_replace old new cs)"
  by pat_completeness auto
termination
  by (relation "measure (\<lambda>(old, new, s). length s)") (auto simp: neq_Nil_conv)

text \<open>\<open>s.split(sep)\<close> for a separator of one character; \<open>cur\<close> is the piece being read.\<close>

fun split_acc :: "nat \<Rightarrow> pystr \<Rightarrow> pystr \<Rightarrow> pystr list" where
  "split_acc sep cur [] = [cur]"
| "split_acc sep cur (c # cs) =
     (if c = sep then cur # split_acc sep [] cs else split_acc sep (cur @ [c]) cs)"

definition py_split :: "nat \<Rightarrow> pystr \<Rightarrow> pystr list" where
  "py_split sep s = split_acc sep [] s"

text \<open>\<open>sep.join(xs)\<close>.\<close>

fun py_join :: "pystr \<Rightarrow> pystr list \<Rightarrow> pystr" where
  "py_join sep [] = []"
| "py_join sep [x] = x"
| "py_join sep (x # y # ys) = x @ sep @ py_join sep (y # ys)"

section \<open>Exceptions, the translation capability and the state of a run\<close>

text \<open>
  The exceptions are those below \<open>Exception\<close>, which is what every handler of the program
  catches. The handlers only print, so the kinds are kept apart for the record only.
\<close>

datatype exn = Timeout | RequestException | JSONDecodeError | KeyError | TypeError
  | AttributeError | OverflowError | OtherException

text \<open>
  \<open>GoogleTranslator(source=source, target=target)\<close> builds the translator object for a language
  pair, or raises (a language that the library does not support). \<open>translator.translate(t)\<close>
  is a request to a remote service. Its outcome, a translation or an exception, is taken as a
  function of the number of requests made before it in the run and of the submitted text: two
  requests with the same text may end differently. The run records every submitted text
  (\<open>calls\<close>) and every warning that \<open>translate_text\<close> prints (\<open>printed\<close>).
\<close>

type_synonym translate_method = "nat \<Rightarrow> pystr \<Rightarrow> exn + pystr"

type_synonym translator = "pystr \<Rightarrow> pystr \<Rightarrow> exn + translate_method"

datatype log_line = TranslateWarning exn

record run_state =
  calls :: "pystr list"
  printed :: "log_line list"

definition translate ::
  "translate_method \<Rightarrow> pystr \<Rightarrow> run_state \<Rightarrow> (exn + pystr) \<times> run_state" where
  "translate tr t s = (tr (length (calls s)) t, s\<lparr>calls := calls s @ [t]\<rparr>)"

section \<open>The chunked translator\<close>

text \<open>
  The \<open>for sentence in sentences\<close> loop of \<open>translate_text\<close>, over the loop variables
  \<open>translated_parts\<close> and \<open>current_chunk\<close>. An exception of \<open>translator.translate\<close> leaves the
  loop at once.
\<close>

fun chunk_loop ::
  "(pystr \<Rightarrow> run_state \<Rightarrow> (exn + pystr) \<times> run_state) \<Rightarrow> pystr list \<Rightarrow> pystr list \<Rightarrow> pystr
     \<Rightarrow> run_state \<Rightarrow> (exn + pystr list \<times> pystr) \<times> run_state" where
  "chunk_loop tr [] translated_parts current_chunk s = (Inr (translated_parts, current_chunk), s)"
| "chunk_loop tr (sentence # rest) translated_parts current_chunk s =
     (if length current_chunk + length sentence < 4500
      then chunk_loop tr rest translated_parts (current_chunk @ sentence) s
      else if current_chunk \<noteq> []
      then (case tr current_chunk s of
              (Inl e, s') \<Rightarrow> (Inl e, s')
            | (Inr t, s') \<Rightarrow> chunk_loop tr rest (translated_parts @ [t]) sentence s')
      else chunk_loop tr rest translated_parts sentence s)"

text \<open>The branch \<open>len(text) > 4500\<close>: split, loop, flush the last chunk, join.\<close>

definition translate_long ::
  "(pystr \<Rightarrow> run_state \<Rightarrow> (exn + pystr) \<times> run_state) \<Rightarrow> pystr \<Rightarrow> run_state
     \<Rightarrow> (exn + pystr) \<times> run_state" where
  "translate_long tr text s =
     (let sentences = py_split BAR (py_replace (lit ''. '') (lit ''.|'') text)
      in case chunk_loop tr sentences [] [] s of
           (Inl e, s1) \<Rightarrow> (Inl e, s1)
         | (Inr (translated_parts, current_chunk), s1) \<Rightarrow>
             if current_chunk \<noteq> []
             then (case tr current_chunk s1 of
                     (Inl e, s2) \<Rightarrow> (Inl e, s2)
                   | (Inr t, s2) \<Rightarrow> (Inr (py_join [SPACE] (translated_parts @ [t])), s2))
             else (Inr (py_join [SPACE] translated_parts), s1))"

text \<open>
  \<open>translate_text(text, source, target)\<close>. The guard for a blank text stands before the \<open>try\<close>.
  The \<open>try\<close> block is the inner \<open>case\<close>: it first builds the translator, which may raise, and
  then takes the long or the short path. The handler prints the warning and returns the empty
  string.
\<close>

definition translate_text ::
  "translator \<Rightarrow> pystr \<Rightarrow> pystr \<Rightarrow> pystr \<Rightarrow> run_state \<Rightarrow> pystr \<times> run_state" where
  "translate_text gt text source target s =
     (if text = [] \<or> py_strip text = [] then ([], s)
      else case (case gt source target of
                   Inl e \<Rightarrow> (Inl e, s)
                 | Inr translator \<Rightarrow>
                     if length text > 4500
                     then translate_long (translate translator) text s
                     else translate translator text s) of
             (Inl e, s') \<Rightarrow> ([], s'\<lparr>printed := printed s' @ [TranslateWarning e]\<rparr>)
           | (Inr r, s') \<Rightarrow> (r, s'))"

section \<open>What the chunked translator submits\<close>

text \<open>
  The units of a long text, as \<open>translate_text\<close> computes them: every \<open>''. ''\<close> becomes
  \<open>''.|''\<close>, then the text is cut at every \<open>''|''\<close>.
\<close>

definition sentences_of :: "pystr \<Rightarrow> pystr list" where
  "sentences_of text = py_split BAR (py_replace (lit ''. '') (lit ''.|'') text)"

text \<open>
  The loop read without the translator: which units go into which chunk. \<open>g\<close> is the list of
  units accumulated in \<open>current_chunk\<close>, so \<open>current_chunk = concat g\<close>; a group is closed
  where the loop flushes, and a group whose text is empty is dropped as the loop drops it.
\<close>

fun group_units :: "pystr list \<Rightarrow> pystr list \<Rightarrow> pystr list list" where
  "group_units g [] = (if concat g \<noteq> [] then [g] else [])"
| "group_units g (u # us) =
     (if length (concat g) + length u < 4500 then group_units (g @ [u]) us
      else (if concat g \<noteq> [] then [g] else []) @ group_units [u] us)"

definition chunks_of :: "pystr \<Rightarrow> pystr list" where
  "chunks_of text = map concat (group_units [] (sentences_of text))"

text \<open>Submitting a list of chunks in order, stopping at the first exception.\<close>

fun submit_all ::
  "(pystr \<Rightarrow> run_state \<Rightarrow> (exn + pystr) \<times> run_state) \<Rightarrow> pystr list \<Rightarrow> run_state
     \<Rightarrow> (exn + pystr list) \<times> run_state" where
  "submit_all tr [] s = (Inr [], s)"
| "submit_all tr (c # cs) s =
     (case tr c s of
        (Inl e, s') \<Rightarrow> (Inl e, s')
      | (Inr t, s') \<Rightarrow>
          (case submit_all tr cs s' of
             (Inl e, s'') \<Rightarrow> (Inl e, s'')
           | (Inr ts, s'') \<Rightarrow> (Inr (t # ts), s'')))"

text \<open>
  The texts that \<open>translate_text\<close> hands to the capability for a text that is not blank, when
  no request raises: the chunks of a long text, the text itself otherwise.
\<close>

definition submitted :: "pystr \<Rightarrow> pystr list" where
  "submitted text = (if length text > 4500 then chunks_of text else [text])"

section \<open>The text annotator\<close>

text \<open>
  \<open>re.sub(r'[^a-zA-Z]', '', word)\<close> keeps the ASCII letters of the word. \<open>str.lower\<close> is
  applied to that result only, where it maps \<open>A\<close> to \<open>Z\<close> onto \<open>a\<close> to \<open>z\<close>.
\<close>

definition is_ascii_letter :: "nat \<Rightarrow> bool" where
  "is_ascii_letter c \<longleftrightarrow> (65 \<le> c \<and> c \<le> 90) \<or> (97 \<le> c \<and> c \<le> 122)"

definition py_lower :: "pystr \<Rightarrow> pystr" where
  "py_lower s = map (\<lambda>c. if 65 \<le> c \<and> c \<le> 90 then c + 32 else c) s"

text \<open>
  \<open>add_ipa_to_word(word)\<close>. \<open>ipa.convert\<close> is the transcription library, a function that
  returns a string or raises; the \<open>except Exception: pass\<close> falls through to \<open>return word\<close>.
\<close>

definition add_ipa_to_word :: "(pystr \<Rightarrow> exn + pystr) \<Rightarrow> pystr \<Rightarrow> pystr" where
  "add_ipa_to_word convert word =
     (let clean_word = filter is_ascii_letter word
      in if length clean_word \<le> 7 then word
         else (case convert (py_lower clean_word) of
                 Inl e \<Rightarrow> word
               | Inr phonetic \<Rightarrow>
                   if phonetic \<noteq> [] \<and> phonetic \<noteq> py_lower clean_word
                   then word @ lit ''<sup class='ipa'>/'' @ phonetic @ lit ''/</sup>''
                   else word))"



section \<open>Test doubles for the transcription library\<close>

text \<open>
  One raises, one returns the empty string, one returns its argument, one returns the
  transcription of \<open>algorithm\<close> for every word.
\<close>

definition raising_convert :: "pystr \<Rightarrow> exn + pystr" where
  "raising_convert w = Inl OtherException"

definition empty_convert :: "pystr \<Rightarrow> exn + pystr" where
  "empty_convert w = Inr []"

definition same_convert :: "pystr \<Rightarrow> exn + pystr" where
  "same_convert w = Inr w"

definition sample_convert :: "pystr \<Rightarrow> exn + pystr" where
  "sample_convert w = Inr [712, 230, 108, 103, 601, 716, 114, 618, 240, 601, 109]"

section \<open>Language detection\<close>

definition is_cjk :: "nat \<Rightarrow> bool" where
  "is_cjk c \<longleftrightarrow> 19968 \<le> c \<and> c \<le> 40959"

text \<open>
  \<open>chinese_chars / total_chars\<close> is Python's true division of two integers: the quotient
  rounded to the nearest binary64 number, ties to the even significand. A positive binary64
  number is written here as a pair \<open>(m, p)\<close> that stands for \<open>m / 2 ^ p\<close>, and all of the
  arithmetic is done on natural numbers.

  \<open>bit_length\<close> is \<open>int.bit_length\<close>. \<open>div_half_even n d\<close> is \<open>n / d\<close> rounded to the nearest
  integer, ties to even. \<open>true_div a b\<close>, for \<open>0 \<le> a \<le> b\<close> and \<open>0 < b\<close>, scales the quotient
  by the power of two \<open>p\<close> that brings it into the range from \<open>2 ^ 52\<close> to \<open>2 ^ 53\<close> of a 53-bit
  significand, and rounds it there. (The quotient is at most 1, and it is far above the
  subnormal range for any \<open>b\<close> that is the length of a string.)
\<close>

fun bit_length :: "nat \<Rightarrow> nat" where
  "bit_length n = (if n = 0 then 0 else Suc (bit_length (n div 2)))"

declare bit_length.simps [simp del]

definition div_half_even :: "nat \<Rightarrow> nat \<Rightarrow> nat" where
  "div_half_even n d =
     (let q = n div d; r = n mod d
      in if 2 * r < d then q else if d < 2 * r then q + 1 else if even q then q else q + 1)"

definition true_div :: "nat \<Rightarrow> nat \<Rightarrow> nat \<times> nat" where
  "true_div a b =
     (if a = 0 then (0, 0)
      else let k = bit_length b - bit_length a;
               p = (if b \<le> a * 2 ^ k then 52 + k else 53 + k)
           in (div_half_even (a * 2 ^ p) b, p))"

text \<open>\<open>x > y\<close> on two such numbers.\<close>

definition double_gt :: "nat \<times> nat \<Rightarrow> nat \<times> nat \<Rightarrow> bool" where
  "double_gt x y \<longleftrightarrow> fst y * 2 ^ snd x < fst x * 2 ^ snd y"

text \<open>
  The literal \<open>0.3\<close> is the binary64 number nearest to three tenths,
  \<open>5404319552844595 / 2 ^ 54\<close>, a little below three tenths.
\<close>

definition double_0_3 :: "nat \<times> nat" where
  "double_0_3 = (5404319552844595, 54)"

text \<open>
  \<open>detect_language(text)\<close>. \<open>re.findall\<close> with the character class from U+4E00 to U+9FFF lists
  the characters of that range; \<open>text.replace(' ', '')\<close> deletes the spaces.
\<close>

definition detect_language :: "pystr \<Rightarrow> pystr" where
  "detect_language text =
     (let chinese_chars = length (filter is_cjk text);
          total_chars = length (py_replace [SPACE] [] text)
      in if total_chars = 0 then lit ''en''
         else if double_gt (true_div chinese_chars total_chars) double_0_3 then lit ''zh''
         else lit ''en'')"

section \<open>JSON values and the dynamic operations on them\<close>

text \<open>
  What \<open>json.load\<close> and \<open>response.json()\<close> return: a Python object built from \<open>None\<close>,
  booleans, integers, floats, strings, lists and dictionaries. A float is kept as a
  significand and an exponent, \<open>JFloat m e\<close> for \<open>m * 2 ^ e\<close>: the fetchers only test whether
  it is zero. A dictionary is a list of pairs with distinct keys. The operations below are
  those that the fetchers apply to such objects; each raises where Python raises.
\<close>

datatype json = JNull | JBool bool | JNum int | JFloat int int | JStr pystr | JList "json list"
  | JObj "(pystr \<times> json) list"

fun truthy :: "json \<Rightarrow> bool" where
  "truthy JNull = False"
| "truthy (JBool b) = b"
| "truthy (JNum n) = (n \<noteq> 0)"
| "truthy (JFloat m e) = (m \<noteq> 0)"
| "truthy (JStr s) = (s \<noteq> [])"
| "truthy (JList xs) = (xs \<noteq> [])"
| "truthy (JObj kvs) = (kvs \<noteq> [])"

text \<open>\<open>v.get(key, default)\<close>: only a dictionary has the method.\<close>

fun py_get :: "json \<Rightarrow> pystr \<Rightarrow> json \<Rightarrow> exn + json" where
  "py_get (JObj kvs) key dflt = Inr (case map_of kvs key of None \<Rightarrow> dflt | Some v \<Rightarrow> v)"
| "py_get v key dflt = Inl AttributeError"

text \<open>\<open>v[key]\<close> for a string \<open>key\<close>.\<close>

fun py_item :: "json \<Rightarrow> pystr \<Rightarrow> exn + json" where
  "py_item (JObj kvs) key = (case map_of kvs key of None \<Rightarrow> Inl KeyError | Some v \<Rightarrow> Inr v)"
| "py_item v key = Inl TypeError"

text \<open>\<open>v[:n]\<close> for \<open>n \<ge> 0\<close>.\<close>

fun py_slice_to :: "json \<Rightarrow> nat \<Rightarrow> exn + json" where
  "py_slice_to (JList xs) n = Inr (JList (take n xs))"
| "py_slice_to (JStr s) n = Inr (JStr (take n s))"
| "py_slice_to (JObj kvs) n = Inl KeyError"
| "py_slice_to v n = Inl TypeError"

text \<open>\<open>for x in v\<close>: the elements of a list, the characters of a string, the keys of a dictionary.\<close>

fun py_iter :: "json \<Rightarrow> exn + json list" where
  "py_iter (JList xs) = Inr xs"
| "py_iter (JStr s) = Inr (map (\<lambda>c. JStr [c]) s)"
| "py_iter (JObj kvs) = Inr (map (\<lambda>kv. JStr (fst kv)) kvs)"
| "py_iter v = Inl TypeError"


text \<open>
  \<open>translate_text(v)\<close> with the default languages, for an object \<open>v\<close> of any type. The test
  \<open>not text or not text.strip()\<close> stands before the \<open>try\<close>: a false object gives the empty string,
  and a true object that is not a string has no \<open>strip\<close>, which raises out of \<open>translate_text\<close>.
\<close>

definition translate_text_dyn ::
  "translator \<Rightarrow> json \<Rightarrow> run_state \<Rightarrow> (exn + pystr) \<times> run_state" where
  "translate_text_dyn gt v s =
     (if \<not> truthy v then (Inr [], s)
      else case v of
             JStr t \<Rightarrow> (case translate_text gt t (lit ''en'') (lit ''zh-CN'') s of
                          (r, s') \<Rightarrow> (Inr r, s'))
           | _ \<Rightarrow> (Inl AttributeError, s))"

section \<open>The environment of a build\<close>

text \<open>
  Everything outside the program that the fetchers read. \<open>requests_get\<close> is \<open>requests.get\<close> for
  a URL and its query parameters (the headers and the timeout are fixed); it raises, or it
  returns a response, whose \<open>raise_for_status\<close> may raise and whose \<open>json()\<close> raises or returns
  the decoded body. \<open>date_days_ago d\<close> is \<open>(datetime.now() - timedelta(days=d))\<close> written with
  \<open>strftime('%Y-%m-%d')\<close>; it raises when the number of days is out of the range of
  \<open>timedelta\<close> or the date leaves the calendar (\<open>OverflowError\<close>). \<open>arxiv_results\<close> is the
  generator \<open>client.results(search)\<close> for a query and a result cap: the results it yields and,
  when it does not end normally, the exception it raises after them (an exception of
  \<open>arxiv.Client()\<close> or \<open>arxiv.Search(...)\<close> is an exception before the first result).
  \<open>path_exists\<close> is \<open>Path.exists\<close>, which returns or raises; \<open>json_load\<close> is \<open>open\<close> followed by
  \<open>json.load\<close>; \<open>glob_txt\<close> is \<open>sorted(dir.glob('*.txt'))\<close>; \<open>read_text\<close> is \<open>open\<close> followed
  by \<open>read\<close>.
\<close>

record http_response =
  raise_for_status :: "exn option"
  json_body :: "exn + json"

text \<open>
  A result of the paper feed, with the attributes that the program reads; \<open>published\<close> is kept
  as the text that \<open>strftime('%Y-%m-%d')\<close> gives for it.
\<close>

record arxiv_result =
  title :: pystr
  summary :: pystr
  author_names :: "pystr list"
  published :: pystr
  entry_id :: pystr
  result_categories :: "pystr list"

record txt_file =
  stem :: pystr
  path :: pystr

record env =
  GoogleTranslator :: translator
  ipa_convert :: "pystr \<Rightarrow> exn + pystr"
  requests_get :: "pystr \<Rightarrow> (pystr \<times> json) list \<Rightarrow> exn + http_response"
  date_days_ago :: "int \<Rightarrow> exn + pystr"
  arxiv_results :: "pystr \<Rightarrow> nat \<Rightarrow> arxiv_result list \<times> exn option"
  path_exists :: "pystr \<Rightarrow> exn + bool"
  json_load :: "pystr \<Rightarrow> exn + json"
  glob_txt :: "pystr \<Rightarrow> exn + txt_file list"
  read_text :: "pystr \<Rightarrow> exn + pystr"


section \<open>The source fetchers\<close>

subsection \<open>Papers\<close>





subsection \<open>Repositories\<close>

record repository =
  repo_name :: json
  stars :: json
  description_en :: json
  description_zh :: pystr
  repo_url :: json
  repo_language :: json
  created_at :: json

text \<open>
  One turn of \<open>for item in ...\<close>: the description and its translation, then the dictionary,
  whose entries are evaluated in the order in which they are written.
\<close>

definition repo_of :: "env \<Rightarrow> json \<Rightarrow> run_state \<Rightarrow> (exn + repository) \<times> run_state" where
  "repo_of E item s =
     (case py_get item (lit ''description'') (JStr []) of
        Inl e \<Rightarrow> (Inl e, s)
      | Inr d \<Rightarrow>
          (case translate_text_dyn (GoogleTranslator E) (if truthy d then d else JStr []) s of
             (Inl e, s') \<Rightarrow> (Inl e, s')
           | (Inr zh, s') \<Rightarrow>
               (case py_item item (lit ''full_name'') of
                  Inl e \<Rightarrow> (Inl e, s')
                | Inr full_name \<Rightarrow>
                    (case py_item item (lit ''stargazers_count'') of
                       Inl e \<Rightarrow> (Inl e, s')
                     | Inr stargazers_count \<Rightarrow>
                         (case py_item item (lit ''html_url'') of
                            Inl e \<Rightarrow> (Inl e, s')
                          | Inr html_url \<Rightarrow>
                              (case py_get item (lit ''language'') (JStr (lit ''Unknown'')) of
                                 Inl e \<Rightarrow> (Inl e, s')
                               | Inr lang \<Rightarrow>
                                   (case py_item item (lit ''created_at'') of
                                      Inl e \<Rightarrow> (Inl e, s')
                                    | Inr created \<Rightarrow>
                                        (case py_slice_to created 10 of
                                           Inl e \<Rightarrow> (Inl e, s')
                                         | Inr created10 \<Rightarrow>
                                             (Inr \<lparr>repo_name = full_name,
                                                   stars = stargazers_count,
                                                   description_en = (if truthy d then d else JStr []),
                                                   description_zh = zh,
                                                   repo_url = html_url,
                                                   repo_language = lang,
                                                   created_at = created10\<rparr>, s')))))))))"

text \<open>The loop: the first exception ends it, with the repositories appended so far.\<close>

fun github_loop ::
  "env \<Rightarrow> json list \<Rightarrow> repository list \<Rightarrow> run_state
     \<Rightarrow> (exn option \<times> repository list) \<times> run_state" where
  "github_loop E [] repos s = ((None, repos), s)"
| "github_loop E (item # rest) repos s =
     (case repo_of E item s of
        (Inl e, s') \<Rightarrow> ((Some e, repos), s')
      | (Inr r, s') \<Rightarrow> github_loop E rest (repos @ [r]) s')"

text \<open>The URL and the query parameters of the search request.\<close>

definition GITHUB_URL :: pystr where
  "GITHUB_URL = lit ''https://api.github.com/search/repositories''"

definition github_params :: "pystr \<Rightarrow> pystr \<Rightarrow> nat \<Rightarrow> (pystr \<times> json) list" where
  "github_params since_date topic max_results =
     [(lit ''q'', JStr (lit ''topic:'' @ topic @ lit '' created:>'' @ since_date)),
      (lit ''sort'', JStr (lit ''stars'')),
      (lit ''order'', JStr (lit ''desc'')),
      (lit ''per_page'', JNum (int max_results))]"

text \<open>
  \<open>fetch_github_trending(days, topic, max_results)\<close>, for \<open>max_results \<ge> 0\<close>. The date, the
  request, the status check, the decoding and the loop are all inside the \<open>try\<close>; every
  \<open>except\<close> clause prints and falls through to \<open>return repos\<close>.
\<close>

definition fetch_github_trending ::
  "env \<Rightarrow> int \<Rightarrow> pystr \<Rightarrow> nat \<Rightarrow> run_state \<Rightarrow> repository list \<times> run_state" where
  "fetch_github_trending E days topic max_results s =
     (case date_days_ago E days of
        Inl e \<Rightarrow> ([], s)
      | Inr since_date \<Rightarrow>
     (let url = GITHUB_URL;
          params = github_params since_date topic max_results
      in case requests_get E url params of
           Inl e \<Rightarrow> ([], s)
         | Inr response \<Rightarrow>
             (case raise_for_status response of
                Some e \<Rightarrow> ([], s)
              | None \<Rightarrow>
                  (case json_body response of
                     Inl e \<Rightarrow> ([], s)
                   | Inr data \<Rightarrow>
                       (case py_get data (lit ''items'') (JList []) of
                          Inl e \<Rightarrow> ([], s)
                        | Inr items \<Rightarrow>
                            (case py_slice_to items max_results of
                               Inl e \<Rightarrow> ([], s)
                             | Inr first_items \<Rightarrow>
                                 (case py_iter first_items of
                                    Inl e \<Rightarrow> ([], s)
                                  | Inr its \<Rightarrow>
                                      (case github_loop E its [] s of
                                         ((raised, repos), s') \<Rightarrow> (repos, s')))))))))"

subsection \<open>Mental models and vocabulary words\<close>



subsection \<open>Quotes\<close>





subsection \<open>Lyrics\<close>




section \<open>Test doubles\<close>

text \<open>
  Stand-ins for the translation library, for running the translator on concrete inputs. Four
  build a translator for every language pair: its requests answer with the submitted text;
  with the length of the submitted text as a single code point; always raise; or serve the
  first request of the run and raise on every later one. The fifth refuses to build a
  translator for the source language \<open>xx\<close>, as the library does for a language that it does not
  support, and answers with the submitted text otherwise.
\<close>

definition echo_translator :: translator where
  "echo_translator source target = Inr (\<lambda>k t. Inr t)"

definition length_translator :: translator where
  "length_translator source target = Inr (\<lambda>k t. Inr [length t])"

definition failing_translator :: translator where
  "failing_translator source target = Inr (\<lambda>k t. Inl Timeout)"

definition first_only_translator :: translator where
  "first_only_translator source target = Inr (\<lambda>k t. if k = 0 then Inr t else Inl Timeout)"

definition picky_translator :: translator where
  "picky_translator source target =
     (if source = lit ''xx'' then Inl OtherException else Inr (\<lambda>k t. Inr t))"

definition fresh_run :: run_state where
  "fresh_run = \<lparr>calls = [], printed = []\<rparr>"

section \<open>Test doubles for the environment\<close>

text \<open>
  \<open>offline_env\<close>: no network and no data files. \<open>malformed_env\<close>: the repository search
  answers with two items, of which the second lacks its name. \<open>null_language_env\<close>: the search
  answers with one repository whose primary language is \<open>null\<close>, as the service reports a
  repository without one, and one repository whose item has no \<open>language\<close> entry.
\<close>

definition offline_env :: env where
  "offline_env =
     \<lparr>GoogleTranslator = echo_translator,
      ipa_convert = sample_convert,
      requests_get = (\<lambda>url params. Inl Timeout),
      date_days_ago = (\<lambda>d. Inr (lit ''2026-01-01'')),
      arxiv_results = (\<lambda>q n. ([], Some RequestException)),
      path_exists = (\<lambda>p. Inr False),
      json_load = (\<lambda>p. Inl JSONDecodeError),
      glob_txt = (\<lambda>p. Inl OtherException),
      read_text = (\<lambda>p. Inl OtherException)\<rparr>"



definition null_language_item :: json where
  "null_language_item =
     JObj [(lit ''full_name'', JStr (lit ''c/d'')),
           (lit ''stargazers_count'', JNum 7),
           (lit ''description'', JNull),
           (lit ''html_url'', JStr (lit ''https://github.com/c/d'')),
           (lit ''language'', JNull),
           (lit ''created_at'', JStr (lit ''2026-01-06T10:00:00Z''))]"

definition no_language_item :: json where
  "no_language_item =
     JObj [(lit ''full_name'', JStr (lit ''e/f'')),
           (lit ''stargazers_count'', JNum 2),
           (lit ''description'', JNull),
           (lit ''html_url'', JStr (lit ''https://github.com/e/f'')),
           (lit ''created_at'', JStr (lit ''2026-01-07T10:00:00Z''))]"

definition search_answer :: "json list \<Rightarrow> pystr \<Rightarrow> (pystr \<times> json) list \<Rightarrow> exn + http_response" where
  "search_answer its url params =
     Inr \<lparr>raise_for_status = None, json_body = Inr (JObj [(lit ''items'', JList its)])\<rparr>"


definition null_language_env :: env where
  "null_language_env =
     offline_env\<lparr>requests_get := search_answer [null_language_item, no_language_item]\<rparr>"


section \<open>Facts about the string operations\<close>

lemma dropWhile_all_iff: "(\<forall>c\<in>set (dropWhile P s). P c) \<longleftrightarrow> (\<forall>c\<in>set s. P c)"
  by (induction s) auto

lemma py_strip_empty_iff: "py_strip s = [] \<longleftrightarrow> (\<forall>c\<in>set s. py_isspace c)"
proof -
  have "py_strip s = [] \<longleftrightarrow> (\<forall>c\<in>set (dropWhile py_isspace s). py_isspace c)"
    by (simp add: py_strip_def)
  then show ?thesis
    by (simp only: dropWhile_all_iff)
qed

section \<open>The loop submits the chunks in order\<close>

lemma loop_flush:
  "(case chunk_loop tr us parts (concat g) s of
      (Inl e, s1) \<Rightarrow> (Inl e, s1)
    | (Inr (tp, cur), s1) \<Rightarrow>
        if cur \<noteq> []
        then (case tr cur s1 of
                (Inl e, s2) \<Rightarrow> (Inl e, s2)
              | (Inr t, s2) \<Rightarrow> (Inr (py_join [SPACE] (tp @ [t])), s2))
        else (Inr (py_join [SPACE] tp), s1))
   = (case submit_all tr (map concat (group_units g us)) s of
        (Inl e, s') \<Rightarrow> (Inl e, s')
      | (Inr ts, s') \<Rightarrow> (Inr (py_join [SPACE] (parts @ ts)), s'))"
proof (induction us arbitrary: parts g s)
  case Nil
  then show ?case by (auto split: prod.splits sum.splits)
next
  case (Cons u us)
  show ?case
  proof (cases "length (concat g) + length u < 4500")
    case True
    then show ?thesis using Cons.IH [of parts "g @ [u]" s] by simp
  next
    case False
    show ?thesis
    proof (cases "concat g = []")
      case True
      then show ?thesis using False Cons.IH [of parts "[u]" s] by simp
    next
      case ne: False
      obtain r s' where r: "tr (concat g) s = (r, s')" by (cases "tr (concat g) s")
      show ?thesis
      proof (cases r)
        case (Inl e)
        then show ?thesis using False ne r by simp
      next
        case (Inr t)
        then show ?thesis using False ne r Cons.IH [of "parts @ [t]" "[u]" s']
          by (simp split: prod.splits sum.splits)
      qed
    qed
  qed
qed


lemma translate_long_eq:
  "translate_long tr text s =
     (case submit_all tr (chunks_of text) s of
        (Inl e, s') \<Rightarrow> (Inl e, s')
      | (Inr ts, s') \<Rightarrow> (Inr (py_join [SPACE] ts), s'))"
proof -
  have "translate_long tr text s =
     (case submit_all tr (map concat (group_units [] (sentences_of text))) s of
        (Inl e, s') \<Rightarrow> (Inl e, s')
      | (Inr ts, s') \<Rightarrow> (Inr (py_join [SPACE] ([] @ ts)), s'))"
    using loop_flush [of tr "sentences_of text" "[]" "[]" s]
    by (simp add: translate_long_def sentences_of_def)
  then show ?thesis
    by (simp add: chunks_of_def split: prod.splits sum.splits)
qed

lemma submit_all_ok:
  assumes "\<forall>i<length cs. \<not> isl (tr (length (calls s) + i) (cs ! i))"
  shows "submit_all (translate tr) cs s =
     (Inr (map (\<lambda>i. projr (tr (length (calls s) + i) (cs ! i))) [0..<length cs]),
      s\<lparr>calls := calls s @ cs\<rparr>)"
  using assms
proof (induction cs arbitrary: s)
  case Nil
  then show ?case by simp
next
  case (Cons c cs)
  let ?s' = "s\<lparr>calls := calls s @ [c]\<rparr>"
  from Cons.prems have c: "\<not> isl (tr (length (calls s)) c)"
    by force
  then obtain t where t: "tr (length (calls s)) c = Inr t"
    by (cases "tr (length (calls s)) c") auto
  have "\<forall>i<length cs. \<not> isl (tr (length (calls ?s') + i) (cs ! i))"
  proof (intro allI impI)
    fix i assume "i < length cs"
    then have "\<not> isl (tr (length (calls s) + Suc i) ((c # cs) ! Suc i))"
      using Cons.prems by (metis Suc_less_eq length_Cons)
    then show "\<not> isl (tr (length (calls ?s') + i) (cs ! i))"
      by simp
  qed
  from Cons.IH [OF this] show ?case
    by (simp add: translate_def t upt_rec [of 0 "Suc (length cs)"] map_Suc_upt [symmetric]
        del: upt_Suc)
qed

lemma submit_all_fail:
  assumes "i < length cs" and "isl (tr (length (calls s) + i) (cs ! i))"
  shows "\<exists>e n. n \<le> i \<and> tr (length (calls s) + n) (cs ! n) = Inl e \<and>
     submit_all (translate tr) cs s = (Inl e, s\<lparr>calls := calls s @ take (Suc n) cs\<rparr>)"
  using assms
proof (induction cs arbitrary: s i)
  case Nil
  then show ?case by simp
next
  case (Cons c cs)
  let ?s' = "s\<lparr>calls := calls s @ [c]\<rparr>"
  show ?case
  proof (cases "tr (length (calls s)) c")
    case (Inl e)
    then have "submit_all (translate tr) (c # cs) s = (Inl e, s\<lparr>calls := calls s @ take (Suc 0) (c # cs)\<rparr>)"
      by (simp add: translate_def)
    with Inl show ?thesis
      by (intro exI [of _ e] exI [of _ 0]) simp
  next
    case (Inr t)
    with Cons.prems obtain j where j: "i = Suc j"
      by (cases i) auto
    with Cons.prems have "j < length cs" and "isl (tr (length (calls ?s') + j) (cs ! j))"
      by simp_all
    from Cons.IH [OF this] obtain e n where n: "n \<le> j"
      "tr (length (calls ?s') + n) (cs ! n) = Inl e"
      "submit_all (translate tr) cs ?s' = (Inl e, ?s'\<lparr>calls := calls ?s' @ take (Suc n) cs\<rparr>)"
      by blast
    then have "submit_all (translate tr) (c # cs) s
        = (Inl e, s\<lparr>calls := calls s @ take (Suc (Suc n)) (c # cs)\<rparr>)"
      by (simp add: translate_def Inr)
    moreover have "tr (length (calls s) + Suc n) ((c # cs) ! Suc n) = Inl e"
      using n(2) by simp
    ultimately show ?thesis
      using n(1) j by (intro exI [of _ e] exI [of _ "Suc n"]) simp
  qed
qed

section \<open>The translator on blank and on short input\<close>

text \<open>
  C4. On the empty string and on a string of whitespace only, \<open>translate_text\<close> returns the
  empty string and leaves the run as it was: no text is submitted to the translation
  capability and nothing is printed.
\<close>

theorem translate_text_blank:
  assumes "text = [] \<or> (\<forall>c\<in>set text. py_isspace c)"
  shows "translate_text gt text source target s = ([], s)"
  using assms by (auto simp: translate_text_def py_strip_empty_iff)

theorem translate_text_blank_witness:
  "translate_text echo_translator [SPACE, 9, 10] (lit ''en'') (lit ''zh-CN'') fresh_run
     = ([], fresh_run)
   \<and> translate_text echo_translator [] (lit ''en'') (lit ''zh-CN'') fresh_run = ([], fresh_run)"
proof -
  have a: "[SPACE, 9, 10] = [] \<or> (\<forall>c\<in>set [SPACE, 9, 10]. py_isspace c)"
    by (simp add: SPACE_def py_isspace_def)
  have b: "([]::pystr) = [] \<or> (\<forall>c\<in>set ([]::pystr). py_isspace c)"
    by simp
  show ?thesis
    using translate_text_blank [OF a, of echo_translator "lit ''en''" "lit ''zh-CN''" fresh_run]
      translate_text_blank [OF b, of echo_translator "lit ''en''" "lit ''zh-CN''" fresh_run]
    by simp
qed

section \<open>The translator and the chunks it submits\<close>

lemma translate_text_eq:
  assumes "text \<noteq> []" and "\<not> (\<forall>c\<in>set text. py_isspace c)" and "gt source target = Inr tr"
  shows "translate_text gt text source target s =
     (case submit_all (translate tr) (submitted text) s of
        (Inl e, s') \<Rightarrow> ([], s'\<lparr>printed := printed s' @ [TranslateWarning e]\<rparr>)
      | (Inr ts, s') \<Rightarrow> (py_join [SPACE] ts, s'))"
proof (cases "length text > 4500")
  case True
  with assms show ?thesis
    by (auto simp: translate_text_def py_strip_empty_iff translate_long_eq submitted_def
        split: prod.splits sum.splits)
next
  case False
  with assms show ?thesis
    by (auto simp: translate_text_def py_strip_empty_iff submitted_def
        split: prod.splits sum.splits)
qed

lemma translate_text_no_translator:
  assumes "text \<noteq> []" and "\<not> (\<forall>c\<in>set text. py_isspace c)" and "gt source target = Inl e"
  shows "translate_text gt text source target s
     = ([], s\<lparr>printed := printed s @ [TranslateWarning e]\<rparr>)"
  using assms by (auto simp: translate_text_def py_strip_empty_iff)

lemma echo_translator_built: "echo_translator source target = Inr (\<lambda>k t. Inr t)"
  by (simp add: echo_translator_def)

text \<open>
  C5, as stated, fails. The translator object is built inside the \<open>try\<close>, before any request.
  For a source language that the library refuses, the short text \<open>hi\<close> is not submitted at
  all: there is no invocation, a warning is printed and the empty string is returned.
\<close>

theorem translate_text_one_call_counterexample:
  "lit ''hi'' \<noteq> [] \<and> \<not> py_isspace 104 \<and> length (lit ''hi'') \<le> 4500
   \<and> translate_text picky_translator (lit ''hi'') (lit ''xx'') (lit ''zh-CN'') fresh_run
     = ([], \<lparr>calls = [], printed = [TranslateWarning OtherException]\<rparr>)
   \<and> length (calls (snd (translate_text picky_translator (lit ''hi'') (lit ''xx'')
         (lit ''zh-CN'') fresh_run))) \<noteq> 1"
proof -
  have a: "lit ''hi'' \<noteq> []" and b: "\<not> (\<forall>c\<in>set (lit ''hi''). py_isspace c)"
    by (simp_all add: lit_def py_isspace_def)
  have c: "picky_translator (lit ''xx'') (lit ''zh-CN'') = Inl OtherException"
    by (simp add: picky_translator_def)
  have "translate_text picky_translator (lit ''hi'') (lit ''xx'') (lit ''zh-CN'') fresh_run
     = ([], \<lparr>calls = [], printed = [TranslateWarning OtherException]\<rparr>)"
    by (simp add: translate_text_no_translator [where gt = picky_translator
          and source = "lit ''xx''" and target = "lit ''zh-CN''", OF a b c] fresh_run_def)
  then show ?thesis
    by (simp add: lit_def py_isspace_def)
qed

text \<open>
  C5, amended. Let the text be neither empty nor whitespace only and have at most 4500
  characters. When the translator for the language pair is built, \<open>translate_text\<close> submits
  exactly one text to it, the input itself, and returns the outcome of that request: its
  translation, or the empty string (after a warning) when the request raises. When building
  the translator raises, nothing is submitted, the warning is printed and the empty string is
  returned.
\<close>

theorem translate_text_short:
  assumes "text \<noteq> []" and "\<not> (\<forall>c\<in>set text. py_isspace c)" and "length text \<le> 4500"
  shows "(\<forall>tr. gt source target = Inr tr \<longrightarrow>
            calls (snd (translate_text gt text source target s)) = calls s @ [text]
          \<and> fst (translate_text gt text source target s)
              = (case tr (length (calls s)) text of Inl e \<Rightarrow> [] | Inr t \<Rightarrow> t)
          \<and> printed (snd (translate_text gt text source target s))
              = (case tr (length (calls s)) text of
                   Inl e \<Rightarrow> printed s @ [TranslateWarning e] | Inr t \<Rightarrow> printed s))
     \<and> (\<forall>e. gt source target = Inl e \<longrightarrow>
            translate_text gt text source target s
              = ([], s\<lparr>printed := printed s @ [TranslateWarning e]\<rparr>))"
proof (intro conjI allI impI)
  fix tr assume tr: "gt source target = Inr tr"
  from assms(3) have sub: "submitted text = [text]"
    by (simp add: submitted_def)
  note eq = translate_text_eq [where gt = gt and source = source and target = target
      and s = s, OF assms(1,2) tr]
  show "calls (snd (translate_text gt text source target s)) = calls s @ [text]"
    by (simp add: eq sub translate_def split: sum.splits)
  show "fst (translate_text gt text source target s)
      = (case tr (length (calls s)) text of Inl e \<Rightarrow> [] | Inr t \<Rightarrow> t)"
    by (simp add: eq sub translate_def split: sum.splits)
  show "printed (snd (translate_text gt text source target s))
      = (case tr (length (calls s)) text of
           Inl e \<Rightarrow> printed s @ [TranslateWarning e] | Inr t \<Rightarrow> printed s)"
    by (simp add: eq sub translate_def split: sum.splits)
next
  fix e assume "gt source target = Inl e"
  then show "translate_text gt text source target s
      = ([], s\<lparr>printed := printed s @ [TranslateWarning e]\<rparr>)"
    by (rule translate_text_no_translator [where gt = gt and source = source
          and target = target, OF assms(1,2)])
qed

theorem translate_text_short_witness:
  "translate_text echo_translator (lit ''hi'') (lit ''en'') (lit ''zh-CN'') fresh_run
     = (lit ''hi'', \<lparr>calls = [lit ''hi''], printed = []\<rparr>)
   \<and> translate_text failing_translator (lit ''hi'') (lit ''en'') (lit ''zh-CN'') fresh_run
     = ([], \<lparr>calls = [lit ''hi''], printed = [TranslateWarning Timeout]\<rparr>)
   \<and> translate_text picky_translator (lit ''hi'') (lit ''xx'') (lit ''zh-CN'') fresh_run
     = ([], \<lparr>calls = [], printed = [TranslateWarning OtherException]\<rparr>)"
proof -
  have a: "lit ''hi'' \<noteq> []" and b: "\<not> (\<forall>c\<in>set (lit ''hi''). py_isspace c)"
    and c: "length (lit ''hi'') \<le> 4500"
    by (simp_all add: lit_def py_isspace_def)
  have 1: "translate_text echo_translator (lit ''hi'') (lit ''en'') (lit ''zh-CN'') fresh_run
     = (lit ''hi'', \<lparr>calls = [lit ''hi''], printed = []\<rparr>)"
    using translate_text_short [OF a b c, of echo_translator "lit ''en''" "lit ''zh-CN''" fresh_run]
    by (cases "translate_text echo_translator (lit ''hi'') (lit ''en'') (lit ''zh-CN'') fresh_run")
      (simp add: fresh_run_def echo_translator_def run_state.equality)
  have 2: "translate_text failing_translator (lit ''hi'') (lit ''en'') (lit ''zh-CN'') fresh_run
     = ([], \<lparr>calls = [lit ''hi''], printed = [TranslateWarning Timeout]\<rparr>)"
    using translate_text_short [OF a b c, of failing_translator "lit ''en''" "lit ''zh-CN''"
        fresh_run]
    by (cases "translate_text failing_translator (lit ''hi'') (lit ''en'') (lit ''zh-CN'')
          fresh_run")
      (simp add: fresh_run_def failing_translator_def run_state.equality)
  have 3: "translate_text picky_translator (lit ''hi'') (lit ''xx'') (lit ''zh-CN'') fresh_run
     = ([], \<lparr>calls = [], printed = [TranslateWarning OtherException]\<rparr>)"
    using translate_text_short [OF a b c, of picky_translator "lit ''xx''" "lit ''zh-CN''"
        fresh_run]
    by (simp add: fresh_run_def picky_translator_def)
  from 1 2 3 show ?thesis
    by (intro conjI)
qed


section \<open>The text annotator\<close>

text \<open>
  C6. \<open>add_ipa_to_word\<close> returns the word unchanged when its ASCII letters number at most 7,
  and also when they number more than 7 and the transcription raises, is empty, or equals the
  lower-cased letters. The function is total: an exception of the transcription is a branch
  that returns the word.
\<close>

theorem add_ipa_to_word_unchanged:
  assumes "length (filter is_ascii_letter word) \<le> 7
     \<or> isl (convert (py_lower (filter is_ascii_letter word)))
     \<or> convert (py_lower (filter is_ascii_letter word)) = Inr []
     \<or> convert (py_lower (filter is_ascii_letter word)) = Inr (py_lower (filter is_ascii_letter word))"
  shows "add_ipa_to_word convert word = word"
  using assms by (auto simp: add_ipa_to_word_def Let_def split: sum.splits)

theorem add_ipa_to_word_unchanged_witness:
  "add_ipa_to_word sample_convert (lit ''(cat),'') = lit ''(cat),''
   \<and> add_ipa_to_word raising_convert (lit ''Algorithm,'') = lit ''Algorithm,''
   \<and> add_ipa_to_word empty_convert (lit ''Algorithm,'') = lit ''Algorithm,''
   \<and> add_ipa_to_word same_convert (lit ''algorithm'') = lit ''algorithm''"
proof -
  have a: "length (filter is_ascii_letter (lit ''(cat),'')) \<le> 7"
    by (simp add: lit_def is_ascii_letter_def)
  have b: "isl (raising_convert (py_lower (filter is_ascii_letter (lit ''Algorithm,''))))"
    by (simp add: raising_convert_def)
  have c: "empty_convert (py_lower (filter is_ascii_letter (lit ''Algorithm,''))) = Inr []"
    by (simp add: empty_convert_def)
  have d: "same_convert (py_lower (filter is_ascii_letter (lit ''algorithm'')))
      = Inr (py_lower (filter is_ascii_letter (lit ''algorithm'')))"
    by (simp add: same_convert_def)
  show ?thesis
    using add_ipa_to_word_unchanged [of "lit ''(cat),''" sample_convert] a
      add_ipa_to_word_unchanged [of "lit ''Algorithm,''" raising_convert] b
      add_ipa_to_word_unchanged [of "lit ''Algorithm,''" empty_convert] c
      add_ipa_to_word_unchanged [of "lit ''algorithm''" same_convert] d
    by blast
qed

text \<open>
  C7, as stated, fails. The fragment that the code appends has the attribute value in single
  quotes, \<open><sup class='ipa'>\<close>, not in double quotes; and a transcription that succeeds with
  the empty string, which differs from the lower-cased word, adds no fragment at all.
\<close>

theorem add_ipa_to_word_fragment_counterexample:
  "add_ipa_to_word sample_convert (lit ''algorithm'')
     = lit ''algorithm'' @ lit ''<sup class='ipa'>/''
         @ [712, 230, 108, 103, 601, 716, 114, 618, 240, 601, 109] @ lit ''/</sup>''
   \<and> add_ipa_to_word sample_convert (lit ''algorithm'')
     \<noteq> lit ''algorithm'' @ lit ''<sup class='' @ [34] @ lit ''ipa'' @ [34] @ lit ''>/''
         @ [712, 230, 108, 103, 601, 716, 114, 618, 240, 601, 109] @ lit ''/</sup>''
   \<and> empty_convert (py_lower (filter is_ascii_letter (lit ''algorithm''))) = Inr []
   \<and> [] \<noteq> py_lower (filter is_ascii_letter (lit ''algorithm''))
   \<and> add_ipa_to_word empty_convert (lit ''algorithm'') = lit ''algorithm''"
  by (simp add: add_ipa_to_word_def sample_convert_def empty_convert_def lit_def
      is_ascii_letter_def py_lower_def)

text \<open>
  C7, amended. When the ASCII letters of the word number more than 7 and the transcription
  succeeds with a non-empty result that differs from the lower-cased letters,
  \<open>add_ipa_to_word\<close> returns the word as it was given, casing and punctuation included,
  immediately followed by \<open><sup class='ipa'>/\<close>, the transcription and \<open>/</sup>\<close>.
\<close>

theorem add_ipa_to_word_annotated:
  assumes "length (filter is_ascii_letter word) > 7"
    and "convert (py_lower (filter is_ascii_letter word)) = Inr phonetic"
    and "phonetic \<noteq> []" and "phonetic \<noteq> py_lower (filter is_ascii_letter word)"
  shows "add_ipa_to_word convert word
     = word @ lit ''<sup class='ipa'>/'' @ phonetic @ lit ''/</sup>''"
  using assms by (simp add: add_ipa_to_word_def Let_def)

theorem add_ipa_to_word_annotated_witness:
  "add_ipa_to_word sample_convert (lit ''Algorithm,'')
     = lit ''Algorithm,'' @ lit ''<sup class='ipa'>/''
         @ [712, 230, 108, 103, 601, 716, 114, 618, 240, 601, 109] @ lit ''/</sup>''"
proof -
  have a: "length (filter is_ascii_letter (lit ''Algorithm,'')) > 7"
    by (simp add: lit_def is_ascii_letter_def)
  have b: "sample_convert (py_lower (filter is_ascii_letter (lit ''Algorithm,'')))
      = Inr [712, 230, 108, 103, 601, 716, 114, 618, 240, 601, 109]"
    by (simp add: sample_convert_def)
  have c: "[712, 230, 108, 103, 601, 716, 114, 618, 240, 601, 109] \<noteq> ([]::pystr)"
    by simp
  have d: "[712, 230, 108, 103, 601, 716, 114, 618, 240, 601, 109]
      \<noteq> py_lower (filter is_ascii_letter (lit ''Algorithm,''))"
    by (simp add: lit_def is_ascii_letter_def py_lower_def)
  show ?thesis
    by (rule add_ipa_to_word_annotated [of "lit ''Algorithm,''" sample_convert
          "[712, 230, 108, 103, 601, 716, 114, 618, 240, 601, 109]", OF a b c d])
qed

section \<open>Rounding the quotient\<close>

lemma bit_length_0: "bit_length 0 = 0"
  by (simp add: bit_length.simps)

lemma bit_length_pos: "0 < n \<Longrightarrow> bit_length n = Suc (bit_length (n div 2))"
  by (subst bit_length.simps) simp

lemma bit_length_bounds: "0 < n \<Longrightarrow> n < 2 ^ bit_length n \<and> 2 ^ bit_length n \<le> 2 * n"
proof (induction n rule: bit_length.induct)
  case (1 n)
  show ?case
  proof (cases "n div 2 = 0")
    case True
    with "1.prems" have "n = 1" by (simp add: div_eq_0_iff)
    then show ?thesis by (simp add: bit_length_pos bit_length_0)
  next
    case False
    then have pos: "0 < n div 2" by simp
    from "1.prems" have "n \<noteq> 0" by simp
    from "1.IH" [OF this pos]
    have ih: "n div 2 < 2 ^ bit_length (n div 2)" "2 ^ bit_length (n div 2) \<le> 2 * (n div 2)"
      by simp_all
    from ih show ?thesis
      unfolding bit_length_pos [OF "1.prems"] by simp linarith
  qed
qed

lemma bit_length_mono:
  assumes "0 < a" and "a \<le> b"
  shows "bit_length a \<le> bit_length b"
proof -
  from assms have "0 < b" by simp
  from bit_length_bounds [OF assms(1)] bit_length_bounds [OF this] assms(2)
  have "(2::nat) ^ bit_length a < 2 ^ Suc (bit_length b)"
    by simp
  then have "bit_length a < Suc (bit_length b)"
    by (simp only: power_strict_increasing_iff [of 2] one_less_numeral_iff semiring_norm)
  then show ?thesis by simp
qed

text \<open>The scaled quotient lies in the range of a 53-bit significand.\<close>

lemma true_div_scale:
  assumes "0 < a" and "a \<le> b"
  defines "k \<equiv> bit_length b - bit_length a"
  defines "p \<equiv> (if b \<le> a * 2 ^ k then 52 + k else 53 + k)"
  shows "b * 2 ^ 52 \<le> a * 2 ^ p \<and> a * 2 ^ p < b * 2 ^ 53"
proof -
  from assms have "0 < b" by simp
  note ba = bit_length_bounds [OF assms(1)] and bb = bit_length_bounds [OF \<open>0 < b\<close>]
  have "bit_length b = bit_length a + k"
    using bit_length_mono [OF assms(1,2)] by (simp add: k_def)
  then have pw: "(2::nat) ^ bit_length b = 2 ^ bit_length a * 2 ^ k"
    by (simp add: power_add)
  define X where "X = (2::nat) ^ bit_length a * 2 ^ k"
  define Y where "Y = a * 2 ^ k"
  have "Y < X"
    using ba by (simp add: X_def Y_def)
  moreover have "X \<le> 2 * Y"
    using ba by (simp add: X_def Y_def)
  moreover have "b < X" and "X \<le> 2 * b"
    using bb pw by (simp_all add: X_def)
  ultimately have up: "Y < 2 * b" and lo: "b < 2 * Y"
    by linarith+
  show ?thesis
  proof (cases "b \<le> Y")
    case True
    then have p: "p = 52 + k" by (simp add: p_def Y_def)
    have eq: "a * 2 ^ p = Y * 2 ^ 52"
      by (simp add: p power_add Y_def)
    from True up show ?thesis
      unfolding eq by simp
  next
    case False
    then have p: "p = 53 + k" by (simp add: p_def Y_def)
    have eq: "a * 2 ^ p = Y * 2 ^ 53"
      by (simp add: p power_add Y_def)
    from False lo show ?thesis
      unfolding eq by simp
  qed
qed

lemma div_half_even_bounds:
  assumes "0 < d"
  shows "2 * n \<le> 2 * (div_half_even n d * d) + d \<and> 2 * (div_half_even n d * d) \<le> 2 * n + d"
proof -
  define q r where "q = n div d" and "r = n mod d"
  have n: "n = q * d + r" and r: "r < d"
    using assms by (simp_all add: q_def r_def)
  have sq: "(q + 1) * d = q * d + d"
    by (simp add: algebra_simps)
  consider "div_half_even n d = q" "2 * r \<le> d" | "div_half_even n d = q + 1" "d \<le> 2 * r"
    unfolding div_half_even_def Let_def q_def [symmetric] r_def [symmetric]
    by (cases "2 * r < d"; cases "d < 2 * r"; cases "even q") auto
  then show ?thesis
  proof cases
    case 1
    then show ?thesis using n r by simp
  next
    case 2
    then show ?thesis using n r by (simp add: sq)
  qed
qed


text \<open>
  The comparison of the rounded quotient with the literal is the comparison of the exact
  fraction with three tenths, as long as the denominator is below \<open>2 ^ 50\<close>: the fractions
  above three tenths are then above it by more than half a unit in the last place.
\<close>

lemma double_gt_iff:
  assumes "0 < b" and "a \<le> b" and "b < 2 ^ 50"
  shows "double_gt (true_div a b) double_0_3 \<longleftrightarrow> 3 * b < 10 * a"
proof (cases "a = 0")
  case True
  then show ?thesis
    by (simp add: true_div_def double_gt_def double_0_3_def)
next
  case False
  then have apos: "0 < a" by simp
  define k where "k = bit_length b - bit_length a"
  define p where "p = (if b \<le> a * 2 ^ k then 52 + k else 53 + k)"
  define n where "n = a * 2 ^ p"
  define m where "m = div_half_even n b"
  define mb where "mb = m * b"
  have td: "true_div a b = (m, p)"
    using False by (simp add: true_div_def Let_def k_def p_def n_def m_def)
  have gt: "double_gt (true_div a b) double_0_3 \<longleftrightarrow> 5404319552844595 * 2 ^ p < m * 2 ^ 54"
    by (simp add: td double_gt_def double_0_3_def)
  have "b * 2 ^ 52 \<le> n \<and> n < b * 2 ^ 53"
    unfolding n_def p_def k_def by (rule true_div_scale [OF apos assms(2)])
  then have S1: "b * 2 ^ 52 \<le> n" and S2: "n < b * 2 ^ 53"
    by blast+
  from div_half_even_bounds [OF assms(1), of n]
  have D1: "2 * n \<le> 2 * mb + b" and D2: "2 * mb \<le> 2 * n + b"
    by (simp_all add: m_def mb_def)
  have b50: "b < 1125899906842624"
    using assms(3) by simp
  show ?thesis
  proof (cases "3 * b < 10 * a")
    case True
    have p54: "p \<le> 54"
    proof (rule ccontr)
      assume "\<not> p \<le> 54"
      then have "55 \<le> p" by simp
      then have "(2::nat) ^ 55 \<le> 2 ^ p"
        by (rule power_increasing) simp
      then have "a * 2 ^ 55 \<le> n"
        unfolding n_def by (rule mult_le_mono2)
      with S2 True show False by simp
    qed
    have "5404319552844595 * 2 ^ p < m * 2 ^ 54"
    proof (cases "p = 54")
      case True
      have n54: "n = a * 2 ^ 54"
        by (simp add: n_def True)
      have "5404319552844595 < m"
      proof (rule ccontr)
        assume "\<not> 5404319552844595 < m"
        then have "m \<le> 5404319552844595" by simp
        then have "mb \<le> 5404319552844595 * b"
          unfolding mb_def by (rule mult_le_mono1)
        with D1 n54 \<open>3 * b < 10 * a\<close> b50 show False by simp
      qed
      with True show ?thesis by simp
    next
      case False
      with p54 have "p \<le> 53" by simp
      then have "(2::nat) ^ p \<le> 2 ^ 53"
        by (rule power_increasing) simp
      then have low: "5404319552844595 * (2::nat) ^ p \<le> 5404319552844595 * 2 ^ 53"
        by (rule mult_le_mono2)
      have "2 ^ 52 \<le> m"
      proof (rule ccontr)
        assume "\<not> 2 ^ 52 \<le> m"
        then have "m \<le> 4503599627370495" by simp
        then have "mb \<le> 4503599627370495 * b"
          unfolding mb_def by (rule mult_le_mono1)
        with D1 S1 assms(1) show False by simp
      qed
      then have "(2::nat) ^ 52 * 2 ^ 54 \<le> m * 2 ^ 54"
        by (rule mult_le_mono1)
      with low show ?thesis by simp
    qed
    with True gt show ?thesis by simp
  next
    case False
    then have le: "10 * a \<le> 3 * b" by simp
    have p54: "54 \<le> p"
    proof (rule ccontr)
      assume "\<not> 54 \<le> p"
      then have "p \<le> 53" by simp
      then have "(2::nat) ^ p \<le> 2 ^ 53"
        by (rule power_increasing) simp
      then have "n \<le> a * 2 ^ 53"
        unfolding n_def by (rule mult_le_mono2)
      with S1 le apos show False by simp
    qed
    have "m * 2 ^ 54 \<le> 5404319552844595 * 2 ^ p"
    proof (cases "p = 54")
      case True
      have n54: "n = a * 2 ^ 54"
        by (simp add: n_def True)
      have "m \<le> 5404319552844595"
      proof (rule ccontr)
        assume "\<not> m \<le> 5404319552844595"
        then have "5404319552844596 \<le> m" by simp
        then have "5404319552844596 * b \<le> mb"
          unfolding mb_def by (rule mult_le_mono1)
        with D2 n54 le assms(1) show False by simp
      qed
      with True show ?thesis by simp
    next
      case False
      with p54 have "55 \<le> p" by simp
      then have "(2::nat) ^ 55 \<le> 2 ^ p"
        by (rule power_increasing) simp
      then have high: "5404319552844595 * (2::nat) ^ 55 \<le> 5404319552844595 * 2 ^ p"
        by (rule mult_le_mono2)
      have "m \<le> 2 ^ 53"
      proof (rule ccontr)
        assume "\<not> m \<le> 2 ^ 53"
        then have "9007199254740993 \<le> m" by simp
        then have "9007199254740993 * b \<le> mb"
          unfolding mb_def by (rule mult_le_mono1)
        with D2 S2 assms(1) show False by simp
      qed
      then have "m * 2 ^ 54 \<le> (2::nat) ^ 53 * 2 ^ 54"
        by (rule mult_le_mono1)
      with high show ?thesis by simp
    qed
    with False gt show ?thesis by simp
  qed
qed

lemma bit_length_3: "bit_length 3 = 2"
  by (simp add: bit_length_pos bit_length_0)

lemma bit_length_10: "bit_length 10 = 4"
  by (simp add: bit_length_pos bit_length_0)

lemma double_0_3_rounds_three_tenths: "true_div 3 10 = double_0_3"
  by (simp add: true_div_def bit_length_3 bit_length_10 div_half_even_def double_0_3_def Let_def)


section \<open>Language detection\<close>

lemma py_replace_delete: "py_replace [c] [] s = filter (\<lambda>x. x \<noteq> c) s"
proof (induction s)
  case Nil
  show ?case by simp
next
  case (Cons a s)
  show ?case
  proof (cases "a = c")
    case True
    then have "py_replace [c] [] (a # s) = [] @ py_replace [c] [] (drop (length [c]) (a # s))"
      by (subst py_replace.simps) simp
    with Cons True show ?thesis by simp
  next
    case False
    then have "py_replace [c] [] (a # s) = a # py_replace [c] [] s"
      by (subst py_replace.simps) simp
    with Cons False show ?thesis by simp
  qed
qed

lemma length_filter_mono:
  "(\<And>x. P x \<Longrightarrow> Q x) \<Longrightarrow> length (filter P xs) \<le> length (filter Q xs)"
  by (induction xs) auto

lemma cjk_le_total: "length (filter is_cjk s) \<le> length (filter (\<lambda>c. c \<noteq> SPACE) s)"
proof (rule length_filter_mono)
  fix x assume "is_cjk x"
  then show "x \<noteq> SPACE" by (simp add: is_cjk_def SPACE_def)
qed

text \<open>
  C8. Let \<open>cjk\<close> be the number of characters from U+4E00 to U+9FFF and \<open>total\<close> the number of
  characters other than the space. \<open>detect_language\<close> returns \<open>zh\<close> exactly when \<open>total\<close> is not
  zero and \<open>cjk / total\<close> exceeds three tenths, that is \<open>3 * total < 10 * cjk\<close>, and \<open>en\<close>
  otherwise; so it returns \<open>en\<close> when \<open>total\<close> is zero. The comparison of the code is between
  binary64 numbers; it agrees with the comparison of the exact fraction for every text of
  fewer than \<open>2 ^ 50\<close> characters.
\<close>

theorem detect_language_threshold:
  assumes "length text < 2 ^ 50"
  shows "detect_language text =
       (if length (filter (\<lambda>c. c \<noteq> SPACE) text) \<noteq> 0
           \<and> 3 * length (filter (\<lambda>c. c \<noteq> SPACE) text) < 10 * length (filter is_cjk text)
        then lit ''zh'' else lit ''en'')
     \<and> (length (filter (\<lambda>c. c \<noteq> SPACE) text) = 0 \<longrightarrow> detect_language text = lit ''en'')"
proof -
  define total where "total = length (filter (\<lambda>c. c \<noteq> SPACE) text)"
  define cjk where "cjk = length (filter is_cjk text)"
  have dl: "detect_language text =
      (if total = 0 then lit ''en''
       else if double_gt (true_div cjk total) double_0_3 then lit ''zh'' else lit ''en'')"
    by (simp add: detect_language_def Let_def py_replace_delete total_def cjk_def)
  have le: "cjk \<le> total"
    unfolding cjk_def total_def by (rule cjk_le_total)
  have "total \<le> length text"
    by (simp add: total_def)
  with assms have small: "total < 2 ^ 50"
    by simp
  have "detect_language text =
      (if total \<noteq> 0 \<and> 3 * total < 10 * cjk then lit ''zh'' else lit ''en'')"
  proof (cases "total = 0")
    case True
    then show ?thesis by (simp add: dl)
  next
    case False
    then have "0 < total" by simp
    from double_gt_iff [OF this le small] False show ?thesis
      by (simp add: dl)
  qed
  moreover have "total = 0 \<longrightarrow> detect_language text = lit ''en''"
    by (simp add: dl)
  ultimately show ?thesis
    unfolding total_def cjk_def by (intro conjI)
qed

theorem detect_language_threshold_witness:
  "detect_language (lit ''ab'' @ [20013]) = lit ''zh''
   \<and> detect_language (lit ''a b c d e f g'' @ [20013, 20013, 20013]) = lit ''en''
   \<and> detect_language (lit ''a b c d e f'' @ [20013, 20013, 20013]) = lit ''zh''
   \<and> detect_language (lit ''   '') = lit ''en''
   \<and> detect_language [] = lit ''en''"
proof -
  have a: "length (lit ''ab'' @ [20013]) < 2 ^ 50"
    and b: "length (lit ''a b c d e f g'' @ [20013, 20013, 20013]) < 2 ^ 50"
    and c: "length (lit ''a b c d e f'' @ [20013, 20013, 20013]) < 2 ^ 50"
    and d: "length (lit ''   '') < 2 ^ 50"
    and e: "length ([]::pystr) < 2 ^ 50"
    by (simp_all add: lit_def)
  from detect_language_threshold [OF a, THEN conjunct1]
  have 1: "detect_language (lit ''ab'' @ [20013]) = lit ''zh''"
    by (simp add: lit_def is_cjk_def SPACE_def)
  from detect_language_threshold [OF b, THEN conjunct1]
  have 2: "detect_language (lit ''a b c d e f g'' @ [20013, 20013, 20013]) = lit ''en''"
    by (simp add: lit_def is_cjk_def SPACE_def)
  from detect_language_threshold [OF c, THEN conjunct1]
  have 3: "detect_language (lit ''a b c d e f'' @ [20013, 20013, 20013]) = lit ''zh''"
    by (simp add: lit_def is_cjk_def SPACE_def)
  from detect_language_threshold [OF d, THEN conjunct1]
  have 4: "detect_language (lit ''   '') = lit ''en''"
    by (simp add: lit_def is_cjk_def SPACE_def)
  from detect_language_threshold [OF e, THEN conjunct1]
  have 5: "detect_language [] = lit ''en''"
    by simp
  from 1 2 3 4 5 show ?thesis
    by (intro conjI)
qed

section \<open>Evaluating the split on concrete texts\<close>

lemma py_replace_replicate:
  "c \<noteq> 46 \<Longrightarrow>
     py_replace [46, 32] new (replicate n c @ xs) = replicate n c @ py_replace [46, 32] new xs"
  by (induction n) simp_all

lemma split_acc_replicate:
  "c \<noteq> sep \<Longrightarrow> split_acc sep cur (replicate n c @ xs) = split_acc sep (cur @ replicate n c) xs"
proof (induction n arbitrary: cur)
  case 0
  then show ?case by simp
next
  case (Suc n)
  from Suc.prems Suc.IH [OF Suc.prems, of "cur @ [c]"] show ?case
    by (simp add: replicate_app_Cons_same)
qed

section \<open>Failure of a request\<close>

lemma first_only_translator_built:
  "first_only_translator source target = Inr (\<lambda>k t. if k = 0 then Inr t else Inl Timeout)"
  by (simp add: first_only_translator_def)

text \<open>
  C2. Let the text be neither empty nor whitespace only, let the translator for the language
  pair be built, and let the request for any one of the texts to submit (the chunks of a long
  text, the text itself otherwise) raise. Then \<open>translate_text\<close> returns a value, the empty
  string, and prints one warning, with the exception of the first request that raised; the
  requests before it succeeded and their translations are not part of the result; no request
  is made after it.
\<close>

theorem translate_text_failure:
  assumes "text \<noteq> []" and "\<not> (\<forall>c\<in>set text. py_isspace c)"
    and "gt source target = Inr tr"
    and "i < length (submitted text)"
    and "isl (tr (length (calls s) + i) (submitted text ! i))"
  shows "\<exists>e n. n \<le> i \<and> tr (length (calls s) + n) (submitted text ! n) = Inl e \<and>
     translate_text gt text source target s =
       ([], \<lparr>calls = calls s @ take (Suc n) (submitted text),
             printed = printed s @ [TranslateWarning e]\<rparr>)"
proof -
  from submit_all_fail [of i "submitted text" tr s, OF assms(4,5)]
  obtain e n where n: "n \<le> i"
    "tr (length (calls s) + n) (submitted text ! n) = Inl e"
    "submit_all (translate tr) (submitted text) s
       = (Inl e, s\<lparr>calls := calls s @ take (Suc n) (submitted text)\<rparr>)"
    by blast
  have "translate_text gt text source target s =
       ([], \<lparr>calls = calls s @ take (Suc n) (submitted text),
             printed = printed s @ [TranslateWarning e]\<rparr>)"
    by (simp add: translate_text_eq [where gt = gt and source = source and target = target,
          OF assms(1,2,3)] n(3))
  with n(1,2) show ?thesis by blast
qed

lemma sentences_of_two:
  "sentences_of (replicate 4498 97 @ lit ''. b'') = [replicate 4498 97 @ [46], [98]]"
  by (simp add: sentences_of_def lit_def py_replace_replicate py_split_def split_acc_replicate BAR_def)

lemma submitted_two:
  "submitted (replicate 4498 97 @ lit ''. b'') = [replicate 4498 97 @ [46], [98]]"
  by (simp add: submitted_def chunks_of_def sentences_of_two) (simp add: lit_def)

theorem translate_text_failure_witness:
  "translate_text first_only_translator (replicate 4498 97 @ lit ''. b'') (lit ''en'')
       (lit ''zh-CN'') fresh_run
     = ([], \<lparr>calls = [replicate 4498 97 @ [46], [98]], printed = [TranslateWarning Timeout]\<rparr>)"
proof -
  let ?text = "replicate 4498 97 @ lit ''. b''"
  let ?tr = "\<lambda>(k::nat) (t::pystr). if k = 0 then Inr t else (Inl Timeout :: exn + pystr)"
  have a: "?text \<noteq> []" and b: "\<not> (\<forall>c\<in>set ?text. py_isspace c)"
    by (simp_all add: lit_def py_isspace_def)
  have t: "first_only_translator (lit ''en'') (lit ''zh-CN'') = Inr ?tr"
    by (rule first_only_translator_built)
  have c: "1 < length (submitted ?text)"
    by (simp add: submitted_two)
  have d: "isl (?tr (length (calls fresh_run) + 1) (submitted ?text ! 1))"
    by simp
  from translate_text_failure [of ?text first_only_translator "lit ''en''" "lit ''zh-CN''"
      ?tr 1 fresh_run, OF a b t c d]
  obtain e n where n: "n \<le> 1"
    "?tr (length (calls fresh_run) + n) (submitted ?text ! n) = Inl e"
    "translate_text first_only_translator ?text (lit ''en'') (lit ''zh-CN'') fresh_run =
       ([], \<lparr>calls = calls fresh_run @ take (Suc n) (submitted ?text),
             printed = printed fresh_run @ [TranslateWarning e]\<rparr>)"
    by blast
  from n(2) have "n \<noteq> 0" and "e = Timeout"
    by (auto simp: fresh_run_def split: if_splits)
  with n(1) have "n = 1" by simp
  with n(3) \<open>e = Timeout\<close> show ?thesis
    by (simp add: submitted_two fresh_run_def)
qed

section \<open>The groups of units\<close>

lemma group_units_nonempty: "g' \<in> set (group_units g us) \<Longrightarrow> concat g' \<noteq> []"
  by (induction us arbitrary: g) (auto split: if_splits)

lemma group_units_bound:
  assumes "length (concat g) < 4500 \<or> (\<exists>u. g = [u])" and "g' \<in> set (group_units g us)"
  shows "length (concat g') < 4500 \<or> (\<exists>u\<in>set (g @ us). g' = [u] \<and> 4500 \<le> length u)"
  using assms
proof (induction us arbitrary: g)
  case Nil
  then show ?case by (auto split: if_splits)
next
  case (Cons u us)
  show ?case
  proof (cases "length (concat g) + length u < 4500")
    case True
    then have "g' \<in> set (group_units (g @ [u]) us)"
      using Cons.prems(2) by simp
    moreover have "length (concat (g @ [u])) < 4500 \<or> (\<exists>v. g @ [u] = [v])"
      using True by simp
    ultimately show ?thesis
      using Cons.IH [of "g @ [u]"] by auto
  next
    case False
    then consider "g' = g" "concat g \<noteq> []" | "g' \<in> set (group_units [u] us)"
      using Cons.prems(2) by (auto split: if_splits)
    then show ?thesis
    proof cases
      case 1
      with Cons.prems(1) show ?thesis by (cases "length (concat g) < 4500") auto
    next
      case 2
      then show ?thesis using Cons.IH [of "[u]"] by auto
    qed
  qed
qed

lemma group_units_concat: "concat (map concat (group_units g us)) = concat g @ concat us"
  by (induction us arbitrary: g) auto

lemma chunks_of_shape:
  assumes "c \<in> set (chunks_of text)"
  shows "c \<noteq> [] \<and> (length c < 4500 \<or> (c \<in> set (sentences_of text) \<and> 4500 \<le> length c))"
proof -
  from assms obtain g' where g': "g' \<in> set (group_units [] (sentences_of text))" "c = concat g'"
    by (auto simp: chunks_of_def)
  from group_units_bound [OF _ g'(1)] g'(2)
  have "length c < 4500 \<or> (c \<in> set (sentences_of text) \<and> 4500 \<le> length c)"
    by auto
  with group_units_nonempty [OF g'(1)] g'(2) show ?thesis by simp
qed

lemma chunks_of_concat: "concat (chunks_of text) = concat (sentences_of text)"
  by (simp add: chunks_of_def group_units_concat)


section \<open>The translator on long input\<close>

lemma sentences_of_one_chunk:
  "sentences_of (replicate 4496 97 @ lit ''. . . '') = [replicate 4496 97 @ [46], [46], [46], []]"
  by (simp add: sentences_of_def lit_def py_replace_replicate py_split_def split_acc_replicate
      BAR_def)

lemma submitted_one_chunk:
  "submitted (replicate 4496 97 @ lit ''. . . '') = [replicate 4496 97 @ [46, 46, 46]]"
  by (simp add: submitted_def chunks_of_def sentences_of_one_chunk) (simp add: lit_def)

lemma sentences_of_full_unit:
  "sentences_of (replicate 4499 97 @ lit ''. b'') = [replicate 4499 97 @ [46], [98]]"
  by (simp add: sentences_of_def lit_def py_replace_replicate py_split_def split_acc_replicate
      BAR_def)

lemma submitted_full_unit:
  "submitted (replicate 4499 97 @ lit ''. b'') = [replicate 4499 97 @ [46], [98]]"
  by (simp add: submitted_def chunks_of_def sentences_of_full_unit) (simp add: lit_def)

lemma chunks_of_full_unit:
  "chunks_of (replicate 4499 97 @ lit ''. b'') = [replicate 4499 97 @ [46], [98]]"
  by (simp add: chunks_of_def sentences_of_full_unit)

lemma length_translator_built:
  "length_translator source target = Inr (\<lambda>k t. Inr [length t])"
  by (simp add: length_translator_def)

text \<open>
  C1, as stated, fails twice. A text of 4502 characters, \<open>4496\<close> letters followed by
  \<open>''. . . ''\<close>, has the units of 4497, 1, 1 and 0 characters; the split drops the three spaces,
  the units fit one chunk of 4499 characters, and one text is submitted, not two. And in a
  text of 4502 characters whose first unit has exactly 4500 characters, no unit exceeds 4500
  characters, yet that unit is submitted alone as a chunk that is not shorter than 4500.
\<close>

theorem translate_text_two_chunks_counterexample:
  "length (replicate 4496 97 @ lit ''. . . '') > 4500
   \<and> sentences_of (replicate 4496 97 @ lit ''. . . '')
       = [replicate 4496 97 @ [46], [46], [46], []]
   \<and> calls (snd (translate_text echo_translator (replicate 4496 97 @ lit ''. . . '')
         (lit ''en'') (lit ''zh-CN'') fresh_run))
       = [replicate 4496 97 @ [46, 46, 46]]
   \<and> \<not> 2 \<le> length (calls (snd (translate_text echo_translator
         (replicate 4496 97 @ lit ''. . . '') (lit ''en'') (lit ''zh-CN'') fresh_run)))
   \<and> sentences_of (replicate 4499 97 @ lit ''. b'') = [replicate 4499 97 @ [46], [98]]
   \<and> calls (snd (translate_text echo_translator (replicate 4499 97 @ lit ''. b'')
         (lit ''en'') (lit ''zh-CN'') fresh_run))
       = [replicate 4499 97 @ [46], [98]]
   \<and> \<not> length (replicate 4499 97 @ [46::nat]) > 4500
   \<and> \<not> length (replicate 4499 97 @ [46::nat]) < 4500"
proof -
  have a: "replicate 4496 97 @ lit ''. . . '' \<noteq> []"
    and b: "\<not> (\<forall>c\<in>set (replicate 4496 97 @ lit ''. . . ''). py_isspace c)"
    and c: "replicate 4499 97 @ lit ''. b'' \<noteq> []"
    and d: "\<not> (\<forall>c\<in>set (replicate 4499 97 @ lit ''. b''). py_isspace c)"
    by (simp_all add: lit_def py_isspace_def)
  note t = echo_translator_built [of "lit ''en''" "lit ''zh-CN''"]
  have "calls (snd (translate_text echo_translator (replicate 4496 97 @ lit ''. . . '')
         (lit ''en'') (lit ''zh-CN'') fresh_run))
       = [replicate 4496 97 @ [46, 46, 46]]"
    by (simp add: translate_text_eq [where gt = echo_translator and source = "lit ''en''"
          and target = "lit ''zh-CN''", OF a b t] submitted_one_chunk translate_def fresh_run_def)
  moreover have "calls (snd (translate_text echo_translator
         (replicate 4499 97 @ lit ''. b'') (lit ''en'') (lit ''zh-CN'') fresh_run))
       = [replicate 4499 97 @ [46], [98]]"
    by (simp add: translate_text_eq [where gt = echo_translator and source = "lit ''en''"
          and target = "lit ''zh-CN''", OF c d t] submitted_full_unit translate_def fresh_run_def)
  moreover have "length (replicate 4496 97 @ lit ''. . . '') > 4500"
    by (simp add: lit_def)
  ultimately show ?thesis
    by (simp add: sentences_of_one_chunk sentences_of_full_unit)
qed

text \<open>
  C1, amended. For a text longer than 4500 characters that is not whitespace only, when the
  translator for the language pair is built and no request raises: the texts submitted are
  the chunks, each once and in order; the result is their translations, in that order, joined
  by single spaces; nothing is printed. Every chunk is non-empty and is either shorter than
  4500 characters or one unit of at least 4500 characters; the chunks, put end to end, are the
  units put end to end. There may be a single chunk, or none.
\<close>

theorem translate_text_long:
  assumes "length text > 4500" and "\<not> (\<forall>c\<in>set text. py_isspace c)"
    and "gt source target = Inr tr"
    and "\<forall>i<length (chunks_of text). \<not> isl (tr (length (calls s) + i) (chunks_of text ! i))"
  shows "calls (snd (translate_text gt text source target s)) = calls s @ chunks_of text
    \<and> fst (translate_text gt text source target s) =
           py_join [SPACE] (map (\<lambda>i. projr (tr (length (calls s) + i) (chunks_of text ! i)))
             [0..<length (chunks_of text)])
    \<and> printed (snd (translate_text gt text source target s)) = printed s
    \<and> (\<forall>c\<in>set (chunks_of text). c \<noteq> [] \<and>
           (length c < 4500 \<or> (c \<in> set (sentences_of text) \<and> 4500 \<le> length c)))
    \<and> concat (chunks_of text) = concat (sentences_of text)"
proof -
  from assms(1) have ne: "text \<noteq> []" by auto
  from assms(1) have sub: "submitted text = chunks_of text" by (simp add: submitted_def)
  note eq = translate_text_eq [where gt = gt and source = source and target = target
      and s = s, OF ne assms(2,3)]
  note ok = submit_all_ok [of "chunks_of text" tr s, OF assms(4)]
  have 1: "calls (snd (translate_text gt text source target s)) = calls s @ chunks_of text"
    by (simp add: eq sub ok)
  have 2: "fst (translate_text gt text source target s) =
           py_join [SPACE] (map (\<lambda>i. projr (tr (length (calls s) + i) (chunks_of text ! i)))
             [0..<length (chunks_of text)])"
    by (simp add: eq sub ok)
  have 3: "printed (snd (translate_text gt text source target s)) = printed s"
    by (simp add: eq sub ok)
  have 4: "\<forall>c\<in>set (chunks_of text). c \<noteq> [] \<and>
           (length c < 4500 \<or> (c \<in> set (sentences_of text) \<and> 4500 \<le> length c))"
    using chunks_of_shape by blast
  have 5: "concat (chunks_of text) = concat (sentences_of text)"
    by (rule chunks_of_concat)
  from 1 2 3 4 5 show ?thesis
    by (intro conjI)
qed

theorem translate_text_long_witness:
  "translate_text length_translator (replicate 4499 97 @ lit ''. b'') (lit ''en'') (lit ''zh-CN'')
       fresh_run
     = ([4500, 32, 1], \<lparr>calls = [replicate 4499 97 @ [46], [98]], printed = []\<rparr>)"
proof -
  let ?text = "replicate 4499 97 @ lit ''. b''"
  let ?tr = "\<lambda>(k::nat) (t::pystr). (Inr [length t] :: exn + pystr)"
  have a: "length ?text > 4500" and b: "\<not> (\<forall>c\<in>set ?text. py_isspace c)"
    by (simp_all add: lit_def py_isspace_def)
  have t: "length_translator (lit ''en'') (lit ''zh-CN'') = Inr ?tr"
    by (rule length_translator_built)
  have c: "\<forall>i<length (chunks_of ?text).
      \<not> isl (?tr (length (calls fresh_run) + i) (chunks_of ?text ! i))"
    by simp
  note th = translate_text_long [of ?text length_translator "lit ''en''" "lit ''zh-CN''" ?tr
      fresh_run, OF a b t c]
  have "[0..<2] = [0, Suc 0]" by (simp add: upt_rec)
  with th show ?thesis
    by (cases "translate_text length_translator ?text (lit ''en'') (lit ''zh-CN'') fresh_run")
      (simp add: chunks_of_full_unit SPACE_def run_state.equality fresh_run_def)
qed

section \<open>The units of a text\<close>

lemma split_acc_not_Nil: "split_acc sep cur xs \<noteq> []"
  by (induction xs arbitrary: cur) auto

lemma py_join_Cons: "ys \<noteq> [] \<Longrightarrow> py_join sep (x # ys) = x @ sep @ py_join sep ys"
  by (cases ys) auto

lemma py_replace_dot_space:
  "py_replace [46, 32] new (46 # 32 # rest) = new @ py_replace [46, 32] new rest"
  by simp

lemma py_replace_other:
  "\<not> prefix [46, 32] (c # cs) \<Longrightarrow> py_replace [46, 32] new (c # cs) = c # py_replace [46, 32] new cs"
  by auto

lemma join_split_replace:
  "124 \<notin> set xs \<Longrightarrow>
     py_join [32] (split_acc 124 cur (py_replace [46, 32] [46, 124] xs)) = cur @ xs"
proof (induction "[46::nat, 32]" "[46::nat, 124]" xs arbitrary: cur rule: py_replace.induct)
  case 1
  then show ?case by simp
next
  case (2 c cs)
  show ?case
  proof (cases "prefix [46::nat, 32] (c # cs)")
    case True
    then obtain rest where rest: "c = 46" "cs = 32 # rest"
      by (cases cs) auto
    with "2.prems" have "124 \<notin> set rest" by simp
    with "2.hyps"(1) [of "[]"] True rest
    have "py_join [32] (split_acc 124 [] (py_replace [46, 32] [46, 124] rest)) = rest"
      by simp
    then show ?thesis
      unfolding rest py_replace_dot_space
      by (simp add: py_join_Cons split_acc_not_Nil)
  next
    case False
    from "2.prems" have "c \<noteq> 124" and "124 \<notin> set cs" by auto
    with "2.hyps"(2) [of "cur @ [c]"] False
    have "py_join [32] (split_acc 124 (cur @ [c]) (py_replace [46, 32] [46, 124] cs))
        = (cur @ [c]) @ cs"
      by blast
    with \<open>c \<noteq> 124\<close> show ?thesis
      unfolding py_replace_other [OF False] by simp
  qed
qed

lemma units_end_with_dot:
  "124 \<notin> set xs \<Longrightarrow>
     \<forall>u\<in>set (butlast (split_acc 124 cur (py_replace [46, 32] [46, 124] xs))).
       u \<noteq> [] \<and> last u = 46"
proof (induction "[46::nat, 32]" "[46::nat, 124]" xs arbitrary: cur rule: py_replace.induct)
  case 1
  then show ?case by simp
next
  case (2 c cs)
  show ?case
  proof (cases "prefix [46::nat, 32] (c # cs)")
    case True
    then obtain rest where rest: "c = 46" "cs = 32 # rest"
      by (cases cs) auto
    with "2.prems" have "124 \<notin> set rest" by simp
    with "2.hyps"(1) [of "[]"] True rest
    have "\<forall>u\<in>set (butlast (split_acc 124 [] (py_replace [46, 32] [46, 124] rest))).
       u \<noteq> [] \<and> last u = 46"
      by simp
    then show ?thesis
      unfolding rest py_replace_dot_space
      by (simp add: split_acc_not_Nil)
  next
    case False
    from "2.prems" have "c \<noteq> 124" and "124 \<notin> set cs" by auto
    with "2.hyps"(2) [of "cur @ [c]"] False
    have "\<forall>u\<in>set (butlast (split_acc 124 (cur @ [c]) (py_replace [46, 32] [46, 124] cs))).
       u \<noteq> [] \<and> last u = 46"
      by blast
    with \<open>c \<noteq> 124\<close> show ?thesis
      unfolding py_replace_other [OF False] by simp
  qed
qed

lemma sentences_of_join:
  assumes "BAR \<notin> set xs"
  shows "py_join [SPACE] (sentences_of xs) = xs"
    and "\<forall>u\<in>set (butlast (sentences_of xs)). u \<noteq> [] \<and> last u = DOT"
  using assms join_split_replace [of xs "[]"] units_end_with_dot [of xs "[]"]
  by (simp_all add: sentences_of_def py_split_def lit_def BAR_def SPACE_def DOT_def)

lemma group_units_sublist: "g' \<in> set (group_units g us) \<Longrightarrow> sublist g' (g @ us)"
proof (induction us arbitrary: g)
  case Nil
  then show ?case by (auto split: if_splits)
next
  case (Cons u us)
  show ?case
  proof (cases "length (concat g) + length u < 4500")
    case True
    with Cons.prems Cons.IH [of "g @ [u]"] show ?thesis by simp
  next
    case False
    with Cons.prems consider "g' = g" | "g' \<in> set (group_units [u] us)"
      by (auto split: if_splits)
    then show ?thesis
    proof cases
      case 1
      then show ?thesis by simp
    next
      case 2
      with Cons.IH [of "[u]"] have "sublist g' (u # us)" by simp
      then show ?thesis by (auto simp: sublist_append)
    qed
  qed
qed

lemma length_py_join: "length (py_join [c] g) = length (concat g) + (length g - 1)"
  by (induction "[c]" g rule: py_join.induct) auto


lemma py_replace_replicate_end:
  "c \<noteq> 46 \<Longrightarrow> py_replace [46, 32] new (replicate n c) = replicate n c"
  using py_replace_replicate [of c new n "[]"] by simp

lemma split_acc_replicate_end:
  "c \<noteq> sep \<Longrightarrow> split_acc sep cur (replicate n c) = [cur @ replicate n c]"
  using split_acc_replicate [of c sep cur n "[]"] by simp

lemma py_join_append:
  "xs \<noteq> [] \<Longrightarrow> ys \<noteq> [] \<Longrightarrow> py_join sep (xs @ ys) = py_join sep xs @ sep @ py_join sep ys"
proof (induction xs)
  case Nil
  then show ?case by simp
next
  case (Cons x xs)
  show ?case
  proof (cases "xs = []")
    case True
    with Cons.prems show ?thesis by (simp add: py_join_Cons)
  next
    case False
    with Cons show ?thesis by (simp add: py_join_Cons)
  qed
qed

lemma py_join_sublist:
  assumes "g \<noteq> []"
  shows "sublist (py_join sep g) (py_join sep (ps @ g @ ss))"
proof (cases "ss = []")
  case True
  show ?thesis
  proof (cases "ps = []")
    case True
    with \<open>ss = []\<close> show ?thesis by simp
  next
    case False
    with \<open>ss = []\<close> assms have "py_join sep (ps @ g @ ss) = (py_join sep ps @ sep) @ py_join sep g"
      by (simp add: py_join_append)
    then show ?thesis by (simp only: sublist_append_leftI)
  qed
next
  case False
  with assms have gs: "py_join sep (g @ ss) = py_join sep g @ sep @ py_join sep ss"
    by (simp add: py_join_append)
  show ?thesis
  proof (cases "ps = []")
    case True
    with gs show ?thesis by simp
  next
    case False
    with assms have "py_join sep (ps @ g @ ss) = (py_join sep ps @ sep) @ py_join sep g @ (sep @ py_join sep ss)"
      by (simp add: py_join_append gs)
    then show ?thesis by (simp only: sublist_appendI)
  qed
qed

lemma group_stretch:
  assumes "BAR \<notin> set s" and "g \<in> set (group_units [] (sentences_of s))"
  shows "sublist (py_join [SPACE] g) s"
proof -
  from group_units_nonempty [OF assms(2)] have "g \<noteq> []" by auto
  from group_units_sublist [OF assms(2)] obtain ps ss where "sentences_of s = ps @ g @ ss"
    by (auto simp: sublist_def)
  with py_join_sublist [OF \<open>g \<noteq> []\<close>, of "[SPACE]" ps ss]
  have "sublist (py_join [SPACE] g) (py_join [SPACE] (sentences_of s))"
    by simp
  with sentences_of_join(1) [OF assms(1)] show ?thesis by simp
qed

lemma sentences_of_repeat:
  "sentences_of (lit ''a.b.x'' @ replicate 4493 120 @ lit ''. a. b. y'' @ replicate 4496 121)
     = [lit ''a.b.x'' @ replicate 4493 120 @ [46], lit ''a.'', lit ''b.'', 121 # replicate 4496 121]"
  by (simp add: sentences_of_def lit_def py_replace_replicate py_replace_replicate_end py_split_def
      split_acc_replicate split_acc_replicate_end BAR_def)

lemma group_units_repeat:
  "group_units [] (sentences_of
       (lit ''a.b.x'' @ replicate 4493 120 @ lit ''. a. b. y'' @ replicate 4496 121))
     = [[lit ''a.b.x'' @ replicate 4493 120 @ [46]], [lit ''a.'', lit ''b.''],
        [121 # replicate 4496 121]]"
  by (simp add: sentences_of_repeat) (simp add: lit_def)

text \<open>
  C10, as stated, fails in its last part. In the text \<open>a.b.x\<close>, 4493 times \<open>x\<close>, \<open>. a. b. y\<close>,
  4496 times \<open>y\<close>, the chunks have 4499, 4 and 4497 characters. The units \<open>a.\<close> and \<open>b.\<close> are
  accumulated into one chunk, submitted as \<open>a.b.\<close>, and \<open>a.b.\<close> occurs verbatim in the input, at
  its very beginning.
\<close>

theorem translate_text_verbatim_counterexample:
  "group_units [] (sentences_of
       (lit ''a.b.x'' @ replicate 4493 120 @ lit ''. a. b. y'' @ replicate 4496 121))
     = [[lit ''a.b.x'' @ replicate 4493 120 @ [46]], [lit ''a.'', lit ''b.''],
        [121 # replicate 4496 121]]
   \<and> calls (snd (translate_text echo_translator
         (lit ''a.b.x'' @ replicate 4493 120 @ lit ''. a. b. y'' @ replicate 4496 121)
         (lit ''en'') (lit ''zh-CN'') fresh_run))
     = [lit ''a.b.x'' @ replicate 4493 120 @ [46], lit ''a.b.'', 121 # replicate 4496 121]
   \<and> length (lit ''a.b.x'' @ replicate 4493 120 @ [46::nat]) < 4500
   \<and> length (121 # replicate 4496 (121::nat)) < 4500
   \<and> sublist (lit ''a.b.'')
         (lit ''a.b.x'' @ replicate 4493 120 @ lit ''. a. b. y'' @ replicate 4496 121)"
proof -
  let ?t = "lit ''a.b.x'' @ replicate 4493 120 @ lit ''. a. b. y'' @ replicate 4496 121"
  have a: "?t \<noteq> []" and b: "\<not> (\<forall>c\<in>set ?t. py_isspace c)"
    by (simp_all add: lit_def py_isspace_def)
  note t = echo_translator_built [of "lit ''en''" "lit ''zh-CN''"]
  have sub: "submitted ?t
      = [lit ''a.b.x'' @ replicate 4493 120 @ [46], lit ''a.b.'', 121 # replicate 4496 121]"
    by (simp add: submitted_def chunks_of_def group_units_repeat) (simp add: lit_def)
  have "calls (snd (translate_text echo_translator ?t (lit ''en'') (lit ''zh-CN'') fresh_run))
     = [lit ''a.b.x'' @ replicate 4493 120 @ [46], lit ''a.b.'', 121 # replicate 4496 121]"
    by (simp add: translate_text_eq [where gt = echo_translator and source = "lit ''en''"
          and target = "lit ''zh-CN''", OF a b t] sub translate_def fresh_run_def)
  moreover have "sublist (lit ''a.b.'') ?t"
  proof -
    have eq: "?t = lit ''a.b.'' @ (120 # replicate 4493 120 @ lit ''. a. b. y'' @ replicate 4496 121)"
      by (simp add: lit_def)
    then show ?thesis
      by (subst eq) (rule sublist_append_rightI)
  qed
  moreover have "length (lit ''a.b.x'' @ replicate 4493 120 @ [46::nat]) < 4500"
    and "length (121 # replicate 4496 (121::nat)) < 4500"
    by (simp_all add: lit_def)
  ultimately show ?thesis
    using group_units_repeat by simp
qed


text \<open>
  C10, amended. In the chunked path every \<open>''. ''\<close> becomes \<open>''.|''\<close> before the split at
  \<open>''|''\<close>, and the texts submitted (when the translator is built and no request raises) are
  the groups of consecutive units, each put end to end with no separator. For a text without
  \<open>''|''\<close>: every unit but the last ends with its period, and the units joined by single
  spaces give the text back, so what the split drops is the space after each period; the
  units of a group, joined by single spaces, are a verbatim stretch of the input, and the
  text submitted for the group has one character less than that stretch for each unit
  boundary inside the group. So the text submitted for a group of two or more units differs
  from the stretch of the input that it was cut from. (It may occur verbatim elsewhere in the
  input.)
\<close>

theorem translate_text_units:
  assumes "length text > 4500" and "\<not> (\<forall>c\<in>set text. py_isspace c)"
    and "gt source target = Inr tr"
    and "\<forall>i<length (chunks_of text). \<not> isl (tr (length (calls s) + i) (chunks_of text ! i))"
  shows "calls (snd (translate_text gt text source target s))
          = calls s @ map concat (group_units [] (sentences_of text))
    \<and> (\<forall>g\<in>set (group_units [] (sentences_of text)). sublist g (sentences_of text))
    \<and> (BAR \<notin> set text \<longrightarrow>
          py_join [SPACE] (sentences_of text) = text \<and>
          (\<forall>u\<in>set (butlast (sentences_of text)). u \<noteq> [] \<and> last u = DOT) \<and>
          (\<forall>g\<in>set (group_units [] (sentences_of text)).
             sublist (py_join [SPACE] g) text \<and>
             length (concat g) + (length g - 1) = length (py_join [SPACE] g) \<and>
             (2 \<le> length g \<longrightarrow> concat g \<noteq> py_join [SPACE] g)))"
proof -
  from assms(1) have ne: "text \<noteq> []" by auto
  from assms(1) have sub: "submitted text = chunks_of text" by (simp add: submitted_def)
  have 1: "calls (snd (translate_text gt text source target s))
          = calls s @ map concat (group_units [] (sentences_of text))"
    using submit_all_ok [of "chunks_of text" tr s, OF assms(4)]
    by (simp add: translate_text_eq [where gt = gt and source = source and target = target,
          OF ne assms(2,3)] sub) (simp add: chunks_of_def)
  have 2: "\<forall>g\<in>set (group_units [] (sentences_of text)). sublist g (sentences_of text)"
    using group_units_sublist by fastforce
  have 3: "BAR \<notin> set text \<longrightarrow>
          py_join [SPACE] (sentences_of text) = text \<and>
          (\<forall>u\<in>set (butlast (sentences_of text)). u \<noteq> [] \<and> last u = DOT) \<and>
          (\<forall>g\<in>set (group_units [] (sentences_of text)).
             sublist (py_join [SPACE] g) text \<and>
             length (concat g) + (length g - 1) = length (py_join [SPACE] g) \<and>
             (2 \<le> length g \<longrightarrow> concat g \<noteq> py_join [SPACE] g))"
  proof
    assume bar: "BAR \<notin> set text"
    have "\<forall>g\<in>set (group_units [] (sentences_of text)).
             sublist (py_join [SPACE] g) text \<and>
             length (concat g) + (length g - 1) = length (py_join [SPACE] g) \<and>
             (2 \<le> length g \<longrightarrow> concat g \<noteq> py_join [SPACE] g)"
    proof
      fix g assume g: "g \<in> set (group_units [] (sentences_of text))"
      have len: "length (concat g) + (length g - 1) = length (py_join [SPACE] g)"
        by (simp add: length_py_join)
      then have "2 \<le> length g \<longrightarrow> length (concat g) \<noteq> length (py_join [SPACE] g)"
        by arith
      then have "2 \<le> length g \<longrightarrow> concat g \<noteq> py_join [SPACE] g"
        by auto
      with len group_stretch [OF bar g]
      show "sublist (py_join [SPACE] g) text \<and>
             length (concat g) + (length g - 1) = length (py_join [SPACE] g) \<and>
             (2 \<le> length g \<longrightarrow> concat g \<noteq> py_join [SPACE] g)"
        by simp
    qed
    with sentences_of_join [OF bar]
    show "py_join [SPACE] (sentences_of text) = text \<and>
          (\<forall>u\<in>set (butlast (sentences_of text)). u \<noteq> [] \<and> last u = DOT) \<and>
          (\<forall>g\<in>set (group_units [] (sentences_of text)).
             sublist (py_join [SPACE] g) text \<and>
             length (concat g) + (length g - 1) = length (py_join [SPACE] g) \<and>
             (2 \<le> length g \<longrightarrow> concat g \<noteq> py_join [SPACE] g))"
      by (intro conjI)
  qed
  from 1 2 3 show ?thesis
    by (intro conjI)
qed

theorem translate_text_units_witness:
  "py_join [SPACE] (sentences_of
       (lit ''a.b.x'' @ replicate 4493 120 @ lit ''. a. b. y'' @ replicate 4496 121))
     = lit ''a.b.x'' @ replicate 4493 120 @ lit ''. a. b. y'' @ replicate 4496 121
   \<and> calls (snd (translate_text echo_translator
         (lit ''a.b.x'' @ replicate 4493 120 @ lit ''. a. b. y'' @ replicate 4496 121)
         (lit ''en'') (lit ''zh-CN'') fresh_run))
     = [lit ''a.b.x'' @ replicate 4493 120 @ [46], lit ''a.b.'', 121 # replicate 4496 121]
   \<and> sublist (py_join [SPACE] [lit ''a.'', lit ''b.''])
         (lit ''a.b.x'' @ replicate 4493 120 @ lit ''. a. b. y'' @ replicate 4496 121)
   \<and> py_join [SPACE] [lit ''a.'', lit ''b.''] = lit ''a. b.''
   \<and> concat [lit ''a.'', lit ''b.''] \<noteq> py_join [SPACE] [lit ''a.'', lit ''b.'']"
proof -
  let ?t = "lit ''a.b.x'' @ replicate 4493 120 @ lit ''. a. b. y'' @ replicate 4496 121"
  let ?tr = "\<lambda>(k::nat) (t::pystr). (Inr t :: exn + pystr)"
  have a: "length ?t > 4500" and b: "\<not> (\<forall>c\<in>set ?t. py_isspace c)"
    by (simp_all add: lit_def py_isspace_def)
  have t: "echo_translator (lit ''en'') (lit ''zh-CN'') = Inr ?tr"
    by (rule echo_translator_built)
  have c: "\<forall>i<length (chunks_of ?t). \<not> isl (?tr (length (calls fresh_run) + i) (chunks_of ?t ! i))"
    by simp
  have d: "BAR \<notin> set ?t"
    by (simp add: lit_def BAR_def)
  note th = translate_text_units [of ?t echo_translator "lit ''en''" "lit ''zh-CN''" ?tr
      fresh_run, OF a b t c]
  note bf = mp [OF th [THEN conjunct2, THEN conjunct2] d]
  from bf have 1: "py_join [SPACE] (sentences_of ?t) = ?t"
    by (rule conjunct1)
  note 2 = th [THEN conjunct1]
  have mem: "[lit ''a.'', lit ''b.''] \<in> set (group_units [] (sentences_of ?t))"
    by (simp add: group_units_repeat)
  from bspec [OF bf [THEN conjunct2, THEN conjunct2] mem]
  have 3: "sublist (py_join [SPACE] [lit ''a.'', lit ''b.'']) ?t"
    and 5: "concat [lit ''a.'', lit ''b.''] \<noteq> py_join [SPACE] [lit ''a.'', lit ''b.'']"
    by simp_all
  have 4: "py_join [SPACE] [lit ''a.'', lit ''b.''] = lit ''a. b.''"
    by (simp add: lit_def SPACE_def)
  from 2 have "calls (snd (translate_text echo_translator ?t (lit ''en'') (lit ''zh-CN'')
      fresh_run))
     = [lit ''a.b.x'' @ replicate 4493 120 @ [46], lit ''a.b.'', 121 # replicate 4496 121]"
    by (simp add: group_units_repeat fresh_run_def) (simp add: lit_def)
  with 1 3 4 5 show ?thesis
    by (intro conjI)
qed

section \<open>The repository fetcher\<close>



lemma repo_of_null_language_item:
  "repo_of E null_language_item s =
     (Inr \<lparr>repo_name = JStr (lit ''c/d''), stars = JNum 7, description_en = JStr [],
           description_zh = [], repo_url = JStr (lit ''https://github.com/c/d''),
           repo_language = JNull, created_at = JStr (lit ''2026-01-06'')\<rparr>, s)"
  by (simp add: repo_of_def null_language_item_def translate_text_dyn_def lit_def)

lemma repo_of_no_language_item:
  "repo_of E no_language_item s =
     (Inr \<lparr>repo_name = JStr (lit ''e/f''), stars = JNum 2, description_en = JStr [],
           description_zh = [], repo_url = JStr (lit ''https://github.com/e/f''),
           repo_language = JStr (lit ''Unknown''), created_at = JStr (lit ''2026-01-07'')\<rparr>, s)"
  by (simp add: repo_of_def no_language_item_def translate_text_dyn_def lit_def)

lemma fetch_github_trending_answer:
  assumes "date_days_ago E days = Inr since_date"
    and "requests_get E GITHUB_URL (github_params since_date topic max_results)
           = search_answer its u p"
  shows "fetch_github_trending E days topic max_results s =
     (case github_loop E (take max_results its) [] s of ((raised, repos), s') \<Rightarrow> (repos, s'))"
  using assms by (simp add: fetch_github_trending_def search_answer_def Let_def)

text \<open>
  C9 fails on the code. For a repository without a primary language the service sends
  \<open>"language": null\<close>: the key is present, \<open>item.get('language', 'Unknown')\<close> returns its value,
  and the record's language is \<open>None\<close>, which is not a text and is not \<open>Unknown\<close>. The default is
  used only when the item has no \<open>language\<close> entry at all (the second repository below). The
  description, on the line above in the source, is guarded against \<open>null\<close> by \<open>or ''\<close>.
\<close>

theorem fetch_github_trending_null_language:
  "map repo_language (fst (fetch_github_trending null_language_env 7
       (lit ''artificial-intelligence'') 10 fresh_run))
     = [JNull, JStr (lit ''Unknown'')]"
proof -
  have d: "date_days_ago null_language_env 7 = Inr (lit ''2026-01-01'')"
    by (simp add: null_language_env_def offline_env_def)
  have "requests_get null_language_env GITHUB_URL
      (github_params (lit ''2026-01-01'') (lit ''artificial-intelligence'') 10)
    = search_answer [null_language_item, no_language_item] GITHUB_URL
      (github_params (lit ''2026-01-01'') (lit ''artificial-intelligence'') 10)"
    by (simp add: null_language_env_def)
  from fetch_github_trending_answer [OF d this] show ?thesis
    by (simp add: repo_of_null_language_item repo_of_no_language_item)
qed

section \<open>The fetchers on errors\<close>


















end
